theory Spec2Isabelle
  imports Main "HOL-Library.AList" "HOL-Library.Char_ord" "HOL-Library.List_Lexorder"
begin

section \<open>Text\<close>

text \<open>
  Python text is modelled as \<^typ>\<open>string\<close>, a list of 8-bit characters read as the
  code points below 256. \<open>str.strip()\<close> with no argument removes leading and trailing
  characters for which \<open>str.isspace\<close> holds; below 256 these are 0x09-0x0D, 0x1C-0x20,
  0x85 and 0xA0.
\<close>

definition isspace :: "char \<Rightarrow> bool" where
  "isspace c =
     (let n = (of_char c :: nat)
      in (9 \<le> n \<and> n \<le> 13) \<or> (28 \<le> n \<and> n \<le> 32) \<or> n = 133 \<or> n = 160)"

definition strip :: "string \<Rightarrow> string" where
  "strip s = rev (dropWhile isspace (rev (dropWhile isspace s)))"

text \<open>
  \<open>s.split(sep, 1)\<close> for a one-character separator: the list of the text before the
  first separator and the text after it, or the one-element list of \<open>s\<close> when the
  separator does not occur.
\<close>

definition split_once :: "char \<Rightarrow> string \<Rightarrow> string list" where
  "split_once sep s =
     (if sep \<in> set s
      then [takeWhile (\<lambda>c. c \<noteq> sep) s, tl (dropWhile (\<lambda>c. c \<noteq> sep) s)]
      else [s])"

definition endswith :: "string \<Rightarrow> string \<Rightarrow> bool" where
  "endswith s suffix = (length suffix \<le> length s \<and> drop (length s - length suffix) s = suffix)"

text \<open>
  \<open>s.replace(old, new)\<close>: every non-overlapping occurrence of \<open>old\<close>, found from the
  left, is replaced. Both calls in the source pass a non-empty \<open>old\<close>; for an empty one
  Python puts \<open>new\<close> before every character and at the end.
\<close>

function replace :: "string \<Rightarrow> string \<Rightarrow> string \<Rightarrow> string" where
  "replace old new s =
     (if old = [] then new @ concat (map (\<lambda>c. c # new) s)
      else if s = [] then []
      else if take (length old) s = old then new @ replace old new (drop (length old) s)
      else hd s # replace old new (tl s))"
  by pat_completeness auto
termination
  by (relation "measure (\<lambda>(old, new, s). length s)") auto

section \<open>JSON values\<close>

text \<open>
  The values \<open>json.loads\<close> returns, as Python holds them: a dict is an association list
  in insertion order with distinct keys. Numbers with a fraction or an exponent (Python
  floats) are not modelled.
\<close>

datatype json =
    JNull
  | JBool bool
  | JInt int
  | JString string
  | JArray "json list"
  | JObject "(string \<times> json) list"

type_synonym dict = "(string \<times> json) list"

text \<open>\<open>d.get(key, default)\<close> on a dict.\<close>

definition dict_get :: "dict \<Rightarrow> string \<Rightarrow> json \<Rightarrow> json" where
  "dict_get d key dflt = (case map_of d key of Some v \<Rightarrow> v | None \<Rightarrow> dflt)"

definition type_name :: "json \<Rightarrow> string" where
  "type_name v =
     (case v of JNull \<Rightarrow> ''NoneType'' | JBool _ \<Rightarrow> ''bool'' | JInt _ \<Rightarrow> ''int''
      | JString _ \<Rightarrow> ''str'' | JArray _ \<Rightarrow> ''list'' | JObject _ \<Rightarrow> ''dict'')"

subsection \<open>A decoder for a fragment of JSON\<close>

text \<open>
  The handlers below take the decoder as a parameter, so what is proved of them holds
  of \<open>json.loads\<close> itself. The decoder defined here follows the library's scanner
  (\<open>json.decoder\<close>, \<open>json.scanner\<close>) on JSON text without \<open>\u\<close> escapes, without
  fractions and exponents and without the constants \<open>NaN\<close> and \<open>Infinity\<close>, and
  rejects such text; it supplies concrete decodings for the examples.
\<close>

definition json_ws :: "char \<Rightarrow> bool" where
  "json_ws c = (c = CHR '' '' \<or> c = CHR 0x09 \<or> c = CHR 0x0A \<or> c = CHR 0x0D)"

definition skip_ws :: "string \<Rightarrow> string" where
  "skip_ws s = dropWhile json_ws s"

definition unescape :: "char \<Rightarrow> char option" where
  "unescape e =
     (if e = CHR 0x22 then Some (CHR 0x22)
      else if e = CHR 0x5C then Some (CHR 0x5C)
      else if e = CHR ''/'' then Some (CHR ''/'')
      else if e = CHR ''b'' then Some (CHR 0x08)
      else if e = CHR ''f'' then Some (CHR 0x0C)
      else if e = CHR ''n'' then Some (CHR 0x0A)
      else if e = CHR ''r'' then Some (CHR 0x0D)
      else if e = CHR ''t'' then Some (CHR 0x09)
      else None)"

text \<open>The text after an opening quote: the string's content and what follows the closing quote.\<close>

fun scan_string :: "string \<Rightarrow> (string \<times> string) option" where
  "scan_string [] = None"
| "scan_string (c # cs) =
     (if c = CHR 0x22 then Some ([], cs)
      else if c = CHR 0x5C then
        (case cs of
           [] \<Rightarrow> None
         | e # cs' \<Rightarrow>
             (case unescape e of
                None \<Rightarrow> None
              | Some ch \<Rightarrow> map_option (\<lambda>(t, r). (ch # t, r)) (scan_string cs')))
      else if (of_char c :: nat) < 32 then None
      else map_option (\<lambda>(t, r). (c # t, r)) (scan_string cs))"

definition is_digit :: "char \<Rightarrow> bool" where
  "is_digit c = (48 \<le> (of_char c :: nat) \<and> (of_char c :: nat) \<le> 57)"

definition digits_value :: "string \<Rightarrow> int" where
  "digits_value ds = foldl (\<lambda>n c. 10 * n + (int (of_char c) - 48)) 0 ds"

text \<open>
  The scanner's number pattern \<open>-?(0|[1-9][0-9]*)\<close>; a fraction or an exponent after it
  would make a float and is rejected here.
\<close>

definition scan_number :: "string \<Rightarrow> (json \<times> string) option" where
  "scan_number s =
     (let neg = (s \<noteq> [] \<and> hd s = CHR ''-'');
          s1 = (if neg then tl s else s);
          ds = (if s1 \<noteq> [] \<and> hd s1 = CHR ''0'' then ''0'' else takeWhile is_digit s1);
          rest = drop (length ds) s1
      in if ds = [] then None
         else if rest \<noteq> [] \<and> hd rest \<in> {CHR ''.'', CHR ''e'', CHR ''E''} then None
         else Some (JInt (if neg then - digits_value ds else digits_value ds), rest))"

text \<open>
  The recursive descent of \<open>scan_once\<close>, \<open>JSONObject\<close> and \<open>JSONArray\<close>. The
  first argument bounds the number of nested calls; every call consumes a character, so
  the length of the text is enough. A repeated key keeps its first position and takes the
  last value, as \<open>dict(pairs)\<close> does.
\<close>

fun scan_once :: "nat \<Rightarrow> string \<Rightarrow> (json \<times> string) option"
  and scan_members :: "nat \<Rightarrow> dict \<Rightarrow> string \<Rightarrow> (dict \<times> string) option"
  and scan_elements :: "nat \<Rightarrow> json list \<Rightarrow> string \<Rightarrow> (json list \<times> string) option"
where
  "scan_once 0 s = None"
| "scan_once (Suc n) [] = None"
| "scan_once (Suc n) (c # cs) =
     (if c = CHR 0x22 then map_option (\<lambda>(t, r). (JString t, r)) (scan_string cs)
      else if c = CHR ''{'' then
        (case skip_ws cs of
           [] \<Rightarrow> None
         | d # ds \<Rightarrow>
             if d = CHR ''}'' then Some (JObject [], ds)
             else map_option (\<lambda>(kvs, r). (JObject kvs, r)) (scan_members n [] (d # ds)))
      else if c = CHR ''['' then
        (case skip_ws cs of
           [] \<Rightarrow> None
         | d # ds \<Rightarrow>
             if d = CHR '']'' then Some (JArray [], ds)
             else map_option (\<lambda>(vs, r). (JArray vs, r)) (scan_elements n [] (d # ds)))
      else if take 4 (c # cs) = ''null'' then Some (JNull, drop 4 (c # cs))
      else if take 4 (c # cs) = ''true'' then Some (JBool True, drop 4 (c # cs))
      else if take 5 (c # cs) = ''false'' then Some (JBool False, drop 5 (c # cs))
      else scan_number (c # cs))"
| "scan_members 0 acc s = None"
| "scan_members (Suc n) acc s =
     (case s of
        [] \<Rightarrow> None
      | q # cs \<Rightarrow>
          if q \<noteq> CHR 0x22 then None
          else
            (case scan_string cs of
               None \<Rightarrow> None
             | Some (key, r1) \<Rightarrow>
                 (case skip_ws r1 of
                    [] \<Rightarrow> None
                  | colon # r2 \<Rightarrow>
                      if colon \<noteq> CHR '':'' then None
                      else
                        (case scan_once n (skip_ws r2) of
                           None \<Rightarrow> None
                         | Some (v, r3) \<Rightarrow>
                             (case skip_ws r3 of
                                [] \<Rightarrow> None
                              | d # r4 \<Rightarrow>
                                  if d = CHR ''}'' then Some (AList.update key v acc, r4)
                                  else if d = CHR '','' then
                                    scan_members n (AList.update key v acc) (skip_ws r4)
                                  else None)))))"
| "scan_elements 0 acc s = None"
| "scan_elements (Suc n) acc s =
     (case scan_once n s of
        None \<Rightarrow> None
      | Some (v, r1) \<Rightarrow>
          (case skip_ws r1 of
             [] \<Rightarrow> None
           | d # r2 \<Rightarrow>
               if d = CHR '']'' then Some (acc @ [v], r2)
               else if d = CHR '','' then scan_elements n (acc @ [v]) (skip_ws r2)
               else None))"

text \<open>
  \<open>json.loads(s)\<close> on the fragment: leading whitespace, one value, trailing whitespace,
  and nothing else. \<open>None\<close> stands for \<open>JSONDecodeError\<close>.
\<close>

definition decode :: "string \<Rightarrow> json option" where
  "decode s =
     (case scan_once (Suc (length s)) (skip_ws s) of
        None \<Rightarrow> None
      | Some (v, r) \<Rightarrow> if skip_ws r = [] then Some v else None)"

section \<open>Exceptions, responses and the services outside the repository\<close>

text \<open>
  An exception carries the text \<open>str(e)\<close> gives. \<open>JSONDecodeError\<close> is the class
  that \<open>except json.JSONDecodeError\<close> catches; \<open>ValueError\<close> stands for a
  \<open>ValueError\<close> that is not a \<open>JSONDecodeError\<close>, as \<open>json.loads\<close> raises for an
  integer of more than 4300 digits; \<open>RecursionError\<close> is what it raises for text nested
  too deeply. \<open>Raised\<close> is an exception of an external service.
\<close>

datatype py_error =
    JSONDecodeError string
  | ValueError string
  | RecursionError string
  | AttributeError string
  | TypeError string
  | Raised string

definition error_text :: "py_error \<Rightarrow> string" where
  "error_text e =
     (case e of
        JSONDecodeError m \<Rightarrow> m | ValueError m \<Rightarrow> m | RecursionError m \<Rightarrow> m
      | AttributeError m \<Rightarrow> m | TypeError m \<Rightarrow> m | Raised m \<Rightarrow> m)"

text \<open>Calling \<open>.get\<close> on a value that is not a dict.\<close>

definition no_attribute_get :: "json \<Rightarrow> py_error" where
  "no_attribute_get v =
     AttributeError ([CHR 0x27] @ type_name v @ [CHR 0x27] @ '' object has no attribute ''
                     @ [CHR 0x27] @ ''get'' @ [CHR 0x27])"

text \<open>An HTTP response: the status and the JSON body \<open>jsonify\<close> produced.\<close>

type_synonym response = "nat \<times> json"

text \<open>A match of the vector index; the index holds text-valued metadata.\<close>

record pinecone_match =
  match_metadata :: "(string \<times> string) list option"

text \<open>
  The library and service calls of the handlers, each a function of its input with
  \<open>Inl m\<close> for an exception of text \<open>m\<close>:
  \<^item> \<open>rag_invoke\<close>: \<open>rag_chain.invoke({"input": msg})\<close>, giving the \<open>answer\<close> entry of
    the response when it has one;
  \<^item> \<open>json_loads\<close>: \<open>json.loads\<close>, with the exception it raises as \<open>Inl\<close>;
  \<^item> \<open>repair_json\<close>: \<open>json_repair.repair_json\<close>;
  \<^item> \<open>object_id\<close>: the text of the identifier the store gives its n-th document;
  \<^item> \<open>store_refuses\<close>: the text of the exception \<open>insert_one\<close> raises for a document
    while the store answers (an integer beyond 64 bits, a key or a size the store does
    not take), \<open>None\<close> for a document it takes;
  \<^item> \<open>retrieve\<close>: \<open>embedder.encode(query).tolist()\<close> followed by \<open>index.query\<close> with
    \<open>top_k=20\<close>, giving \<open>result.matches\<close>;
  \<^item> \<open>llm_invoke\<close>: \<open>llm.invoke(prompt)\<close>, the prompt being a fixed template around
    the query and \<open>json.dumps(structured_output, indent=2)\<close>.
\<close>

record services =
  rag_invoke :: "string \<Rightarrow> string + string option"
  json_loads :: "string \<Rightarrow> py_error + json"
  repair_json :: "string \<Rightarrow> string + string"
  object_id :: "nat \<Rightarrow> string"
  store_refuses :: "dict \<Rightarrow> string option"
  retrieve :: "string \<Rightarrow> string + pinecone_match list"
  llm_invoke :: "string \<Rightarrow> json \<Rightarrow> string + string"

text \<open>
  What a request can observe and change: the documents of \<open>chat_collection\<close> in
  insertion order, whether the store answers (\<open>Some m\<close>: every operation of the driver
  raises with text \<open>m\<close>), the formatted time \<open>datetime.now()\<close> gives, and the calls
  made to the retrieval and generation services so far. The set-up of lines 28 to 34 is
  taken to have bound \<open>chat_collection\<close>.
\<close>

datatype call = RagChain string | Pinecone string | Llm string json

record world =
  chat_collection :: "dict list"
  store_fault :: "string option"
  clock :: string
  calls :: "call list"

section \<open>app.py and sampleapp.py: the chat handler and the history\<close>

text \<open>
  The two files have the same \<open>chat\<close> and \<open>history\<close>, line for line.
  \<open>split_answer\<close> is the branch on \<open>"{" in raw_answer\<close> (app.py, lines 83 to 89) and gives
  \<open>(human_part, json_part)\<close>.
\<close>

definition split_answer :: "string \<Rightarrow> string \<times> string" where
  "split_answer raw_answer =
     (if CHR ''{'' \<in> set raw_answer then
        (let parts = split_once (CHR ''{'') raw_answer
         in (strip (parts ! 0), CHR ''{'' # parts ! 1))
      else (raw_answer, ''{}''))"

text \<open>
  The \<open>try\<close> of lines 91 to 95: only \<open>JSONDecodeError\<close> is caught. Any other
  exception of \<open>json.loads\<close>, and the \<open>AttributeError\<close> of \<open>.get\<close> on a decoded value
  that is not a dict, leave the handler.
\<close>

definition get_filters :: "(string \<Rightarrow> py_error + json) \<Rightarrow> string \<Rightarrow> py_error + json" where
  "get_filters loads json_part =
     (case loads json_part of
        Inl e \<Rightarrow>
          (case e of
             JSONDecodeError _ \<Rightarrow> Inr (JObject [])
           | _ \<Rightarrow> Inl e)
      | Inr parsed_json \<Rightarrow>
          (case parsed_json of
             JObject d \<Rightarrow> Inr (dict_get d ''filters'' (JObject []))
           | _ \<Rightarrow> Inl (no_attribute_get parsed_json)))"

text \<open>The dict \<open>final_output\<close> of lines 98 to 103.\<close>

definition final_output :: "string \<Rightarrow> string \<Rightarrow> json \<Rightarrow> string \<Rightarrow> dict" where
  "final_output msg human_part filters timestamp =
     [(''user_input'', JString msg),
      (''answer'', JString human_part),
      (''filters'', filters),
      (''timestamp'', JString timestamp)]"

text \<open>
  \<open>chat_collection.insert_one(document)\<close>: the store keeps the document under a new
  identifier, or the call raises and the store keeps nothing. The driver first puts a
  new \<open>ObjectId\<close> under \<open>_id\<close> into the caller's dict and then encodes and sends it, so
  after a call that raised the dict holds an \<open>ObjectId\<close>.
\<close>

definition insert_one :: "services \<Rightarrow> world \<Rightarrow> dict \<Rightarrow> string + (string \<times> world)" where
  "insert_one sv w document =
     (case store_fault w of
        Some m \<Rightarrow> Inl m
      | None \<Rightarrow>
          (case store_refuses sv document of
             Some m \<Rightarrow> Inl m
           | None \<Rightarrow>
               (let oid = object_id sv (length (chat_collection w))
                in Inr (oid, w\<lparr>chat_collection :=
                                 chat_collection w
                                 @ [AList.update ''_id'' (JString oid) document]\<rparr>))))"

text \<open>
  \<open>chat\<close> (app.py, lines 70 to 114). The argument is \<open>request.form.get("msg")\<close>. An
  \<open>Inl\<close> result is an exception no handler catches: the framework answers it with
  status 500. When \<open>insert_one\<close> raised, the \<open>except\<close> of line 110 prints, and
  \<open>jsonify(final_output)\<close> meets the \<open>ObjectId\<close> the driver left in the dict and raises
  \<open>TypeError\<close>.
\<close>

definition chat :: "services \<Rightarrow> string option \<Rightarrow> world \<Rightarrow> (py_error + response) \<times> world" where
  "chat sv msg w =
     (case msg of
        None \<Rightarrow> (Inr (400, JObject [(''error'', JString ''No message provided'')]), w)
      | Some m \<Rightarrow>
          if m = [] then (Inr (400, JObject [(''error'', JString ''No message provided'')]), w)
          else
            (let w1 = w\<lparr>calls := calls w @ [RagChain m]\<rparr>
             in case rag_invoke sv m of
                  Inl e \<Rightarrow> (Inl (Raised e), w1)
                | Inr response \<Rightarrow>
                    (let raw_answer = (case response of None \<Rightarrow> [] | Some a \<Rightarrow> a);
                         (human_part, json_part) = split_answer raw_answer
                     in case get_filters (json_loads sv) json_part of
                          Inl e \<Rightarrow> (Inl e, w1)
                        | Inr filters \<Rightarrow>
                            (let output = final_output m human_part filters (clock w1)
                             in case insert_one sv w1 output of
                                  Inl e \<Rightarrow>
                                    (Inl (TypeError
                                            ''Object of type ObjectId is not JSON serializable''),
                                     w1)
                                | Inr (oid, w2) \<Rightarrow>
                                    (Inr (200, JObject (AList.update ''_id'' (JString oid)
                                                          output)), w2)))))"


definition has_timestamp :: "dict \<Rightarrow> bool" where
  "has_timestamp d = (case map_of d ''timestamp'' of Some (JString s) \<Rightarrow> True | _ \<Rightarrow> False)"



section \<open>test2.py and test3.py: grouped retrieval, summary and repair\<close>

text \<open>
  The loop over \<open>result.matches\<close> (test2.py, lines 39 to 48; test3.py, lines 67 to 76).
  \<open>grouped\<close> is a \<open>defaultdict(list)\<close>: a new source is added at the end with a
  one-element list, a known one has its list extended. The bare \<open>except\<close> turns text
  that does not decode into \<open>{"text": text}\<close>.
\<close>

definition group_step ::
  "(string \<Rightarrow> py_error + json) \<Rightarrow> (string \<times> json list) list \<Rightarrow> pinecone_match
     \<Rightarrow> (string \<times> json list) list" where
  "group_step loads grouped m =
     (let meta = (case match_metadata m of None \<Rightarrow> [] | Some d \<Rightarrow> d);
          source = (case map_of meta ''source'' of Some s \<Rightarrow> s | None \<Rightarrow> ''unknown_source'');
          txt = (case map_of meta ''text'' of Some t \<Rightarrow> t | None \<Rightarrow> [])
      in if txt \<noteq> [] then
           (let item = (case loads txt of
                          Inr v \<Rightarrow> v
                        | Inl _ \<Rightarrow> JObject [(''text'', JString txt)])
            in AList.map_default source [item] (\<lambda>vs. vs @ [item]) grouped)
         else grouped)"

definition group_matches :: "(string \<Rightarrow> py_error + json) \<Rightarrow> pinecone_match list \<Rightarrow> json" where
  "group_matches loads matches =
     JObject (map (\<lambda>(source, vs). (source, JArray vs)) (foldl (group_step loads) [] matches))"

text \<open>\<open>chat\<close> of test2.py (lines 26 to 70). Retrieval is outside any \<open>try\<close>.\<close>

definition chat_test2 :: "services \<Rightarrow> string option \<Rightarrow> world \<Rightarrow> (py_error + response) \<times> world" where
  "chat_test2 sv msg w =
     (let query = strip (case msg of None \<Rightarrow> [] | Some m \<Rightarrow> m)
      in if query = [] then
           (Inr (200, JObject [(''summary'', JString ''Please enter a query.''),
                               (''structured_output'', JObject [])]), w)
         else
           (let w1 = w\<lparr>calls := calls w @ [Pinecone query]\<rparr>
            in case retrieve sv query of
                 Inl e \<Rightarrow> (Inl (Raised e), w1)
               | Inr matches \<Rightarrow>
                   (let structured_output = group_matches (json_loads sv) matches;
                        w2 = w1\<lparr>calls := calls w1 @ [Llm query structured_output]\<rparr>;
                        summary = (case llm_invoke sv query structured_output of
                                     Inl e \<Rightarrow> ''Error generating summary: '' @ e
                                   | Inr out \<Rightarrow> strip out)
                    in (Inr (200, JObject [(''summary'', JString summary),
                                           (''structured_output'', structured_output)]), w2))))"

text \<open>
  \<open>validate_and_repair_json\<close> (test3.py, lines 26 to 35): the outer \<open>except\<close> catches
  \<open>JSONDecodeError\<close> only, the inner one every exception.
\<close>

definition validate_and_repair_json :: "services \<Rightarrow> string \<Rightarrow> py_error + json" where
  "validate_and_repair_json sv llm_output =
     (case json_loads sv llm_output of
        Inr v \<Rightarrow> Inr v
      | Inl e \<Rightarrow>
          (case e of
             JSONDecodeError _ \<Rightarrow>
               (case repair_json sv llm_output of
                  Inl e' \<Rightarrow> Inl (ValueError (''Failed to repair/parse JSON: '' @ e'))
                | Inr repaired \<Rightarrow>
                    (case json_loads sv repaired of
                       Inl e' \<Rightarrow>
                         Inl (ValueError (''Failed to repair/parse JSON: '' @ error_text e'))
                     | Inr v \<Rightarrow> Inr v))
           | _ \<Rightarrow> Inl e))"

text \<open>
  Step 4 of test3.py's \<open>chat\<close> (lines 119 to 131), the body of its \<open>try\<close>: the triple
  \<open>(summary, validated_output, elasticsearch_query)\<close>, or the exception the \<open>except\<close>
  of line 133 receives.
\<close>

definition parse_llm_output :: "services \<Rightarrow> string \<Rightarrow> json \<Rightarrow> py_error + json \<times> json \<times> json" where
  "parse_llm_output sv query structured_output =
     (case llm_invoke sv query structured_output of
        Inl e \<Rightarrow> Inl (Raised e)
      | Inr out \<Rightarrow>
          (let llm_output = strip (replace [CHR 0x60, CHR 0x60, CHR 0x60] []
                                     (replace ([CHR 0x60, CHR 0x60, CHR 0x60] @ ''json'') []
                                        (strip out)))
           in case validate_and_repair_json sv llm_output of
                Inl e \<Rightarrow> Inl e
              | Inr parsed \<Rightarrow>
                  (case parsed of
                     JObject d \<Rightarrow>
                       Inr (dict_get d ''summary'' (JString ''No summary generated.''),
                            dict_get d ''validated_output'' structured_output,
                            dict_get d ''elasticsearch_query'' (JObject []))
                   | _ \<Rightarrow> Inl (no_attribute_get parsed))))"

text \<open>
  \<open>chat\<close> of test3.py (lines 42 to 144). \<open>validated_output\<close> is assigned in step 4;
  the response of step 5 is built from \<open>structured_output\<close>.
\<close>

definition chat_test3 :: "services \<Rightarrow> string option \<Rightarrow> world \<Rightarrow> response \<times> world" where
  "chat_test3 sv msg w =
     (let query = strip (case msg of None \<Rightarrow> [] | Some m \<Rightarrow> m)
      in if query = [] then
           ((200, JObject [(''summary'', JString ''Please enter a query.''),
                           (''validated_output'', JObject []),
                           (''elasticsearch_query'', JObject [])]), w)
         else
           (let w1 = w\<lparr>calls := calls w @ [Pinecone query]\<rparr>
            in case retrieve sv query of
                 Inl e \<Rightarrow>
                   ((200, JObject [(''summary'', JString (''Error connecting to database: '' @ e)),
                                   (''validated_output'', JObject []),
                                   (''elasticsearch_query'', JObject [])]), w1)
               | Inr matches \<Rightarrow>
                   (let structured_output = group_matches (json_loads sv) matches;
                        w2 = w1\<lparr>calls := calls w1 @ [Llm query structured_output]\<rparr>;
                        (summary, validated_output, elasticsearch_query) =
                          (case parse_llm_output sv query structured_output of
                             Inr t \<Rightarrow> t
                           | Inl e \<Rightarrow>
                               (JString (''Error validating or generating query: '' @ error_text e),
                                structured_output, JObject []))
                    in ((200, JObject [(''summary'', summary),
                                       (''validated_output'', structured_output),
                                       (''elasticsearch_query'', elasticsearch_query)]), w2))))"

section \<open>src/helper.py: the document loader\<close>

record document =
  page_content :: string
  metadata :: dict

text \<open>
  The loop over \<open>items()\<close> of a dict (lines 31 to 36 and 44 to 49): \<open>extra\<close> is the
  \<open>index\<close> entry of the metadata inside a list, and empty for a top-level dict.
\<close>

definition add_items :: "string \<Rightarrow> dict \<Rightarrow> dict \<Rightarrow> document list \<Rightarrow> document list" where
  "add_items file_name extra items documents =
     fold (\<lambda>(key, v) docs.
             case v of
               JString s \<Rightarrow>
                 if strip s \<noteq> [] then
                   docs @ [\<lparr>page_content = strip s,
                            metadata = [(''source'', JString file_name), (''key'', JString key)]
                                       @ extra\<rparr>]
                 else docs
             | _ \<Rightarrow> docs)
          items documents"

text \<open>The loop over \<open>enumerate(json_data)\<close> of a list (lines 29 to 41).\<close>

definition add_records :: "string \<Rightarrow> json list \<Rightarrow> document list \<Rightarrow> document list" where
  "add_records file_name records documents =
     fold (\<lambda>(i, r) docs.
             case r of
               JObject d \<Rightarrow> add_items file_name [(''index'', JInt (int i))] d docs
             | JString s \<Rightarrow>
                 if strip s \<noteq> [] then
                   docs @ [\<lparr>page_content = strip s,
                            metadata = [(''source'', JString file_name),
                                        (''index'', JInt (int i))]\<rparr>]
                 else docs
             | _ \<Rightarrow> docs)
          (List.enumerate 0 records) documents"

text \<open>
  One pass of the loop over \<open>os.listdir(data_folder)\<close> (lines 18 to 52). A folder entry
  is a file name with the text read from it, \<open>None\<close> when \<open>open\<close> or the read raises.
  The state is \<open>documents\<close> and the names of the files whose error was printed.
\<close>

definition load_file ::
  "(string \<Rightarrow> py_error + json) \<Rightarrow> string \<times> string option
     \<Rightarrow> document list \<times> string list \<Rightarrow> document list \<times> string list" where
  "load_file loads entry st =
     (let (file_name, content) = entry; (documents, errors) = st
      in if \<not> endswith file_name ''.json'' then (documents, errors)
         else
           (case content of
              None \<Rightarrow> (documents, errors @ [file_name])
            | Some c \<Rightarrow>
                (case loads c of
                   Inl _ \<Rightarrow> (documents, errors @ [file_name])
                 | Inr json_data \<Rightarrow>
                     (case json_data of
                        JArray records \<Rightarrow> (add_records file_name records documents, errors)
                      | JObject d \<Rightarrow> (add_items file_name [] d documents, errors)
                      | _ \<Rightarrow> (documents, errors)))))"

text \<open>
  \<open>load_json_files\<close> (lines 9 to 55) on the listing of an existing folder: the documents
  returned, and the files reported as errors.
\<close>

definition load_json_files ::
  "(string \<Rightarrow> py_error + json) \<Rightarrow> (string \<times> string option) list
     \<Rightarrow> document list \<times> string list" where
  "load_json_files loads listing = fold (load_file loads) listing ([], [])"

section \<open>Concrete services for the examples\<close>

text \<open>
  The decoder of the JSON fragment as \<open>json.loads\<close>; a repair that closes an object
  left open and gives the empty text when there is no object; a retrieval chain and a
  language model that answer with the text they are asked about; a store that takes
  every document; and an index with one match.
\<close>

definition decode_or_raise :: "string \<Rightarrow> py_error + json" where
  "decode_or_raise s =
     (case decode s of None \<Rightarrow> Inl (JSONDecodeError ''Expecting value'') | Some v \<Rightarrow> Inr v)"

definition example_services :: services where
  "example_services =
     \<lparr>rag_invoke = (\<lambda>m. Inr (Some m)),
      json_loads = decode_or_raise,
      repair_json = (\<lambda>s. if CHR ''{'' \<in> set s then Inr (s @ ''}'') else Inr []),
      object_id = (\<lambda>n. replicate (Suc n) (CHR ''a'')),
      store_refuses = (\<lambda>d. None),
      retrieve = (\<lambda>q. Inr [\<lparr>match_metadata = Some [(''source'', ''company_type.json''),
                                                   (''text'', ''Private Limited Company'')]\<rparr>]),
      llm_invoke = (\<lambda>q s. Inr q)\<rparr>"

definition example_world :: world where
  "example_world =
     \<lparr>chat_collection = [], store_fault = None, clock = ''2025-01-01 10:00:00'', calls = []\<rparr>"


text \<open>A folder with an object-shaped file, a malformed file and a list-shaped file.\<close>

definition example_folder :: "(string \<times> string option) list" where
  "example_folder =
     [(''a.json'', Some ''{\"a\": \"x\", \"b\": \"\"}''),
      (''bad.json'', Some ''{{''),
      (''c.json'', Some ''[\" u \", {\"k\": \"v\", \"n\": 1}, 3]'')]"

text \<open>
  A blob nested a hundred thousand lists deep, and a \<open>json.loads\<close> that raises
  \<open>RecursionError\<close> on it.
\<close>

definition deep_nesting :: string where
  "deep_nesting = replicate 100000 (CHR ''['')"

definition deep_blob :: string where
  "deep_blob = ''{\"a\": '' @ deep_nesting"

definition deep_services :: services where
  "deep_services =
     example_services
       \<lparr>json_loads :=
          (\<lambda>s. if s = deep_blob
               then Inl (RecursionError ''maximum recursion depth exceeded while decoding a JSON array from a unicode string'')
               else decode_or_raise s)\<rparr>"

section \<open>Predicates used in the statements\<close>

text \<open>
  The texts a decoded file offers the loader: the text values of a top-level object,
  and, in a top-level list, the items that are text and the text values of the items that
  are objects, in the order of the file.
\<close>

definition object_strings :: "dict \<Rightarrow> string list" where
  "object_strings d = [s. (key, JString s) \<leftarrow> d]"

definition item_strings :: "json \<Rightarrow> string list" where
  "item_strings r = (case r of JString s \<Rightarrow> [s] | JObject d \<Rightarrow> object_strings d | _ \<Rightarrow> [])"

definition source_strings :: "json \<Rightarrow> string list" where
  "source_strings json_data =
     (case json_data of
        JObject d \<Rightarrow> object_strings d
      | JArray records \<Rightarrow>
          concat (map item_strings records)
      | _ \<Rightarrow> [])"

text \<open>
  The contents a folder entry is to give: for a file named \<open>.json\<close> that can be read
  and decoded, the trimmed source texts that are not empty; nothing otherwise.
\<close>

definition loaded_texts :: "(string \<Rightarrow> py_error + json) \<Rightarrow> string \<times> string option \<Rightarrow> string list" where
  "loaded_texts loads entry =
     (if endswith (fst entry) ''.json'' then
        (case snd entry of
           None \<Rightarrow> []
         | Some c \<Rightarrow>
             (case loads c of
                Inl _ \<Rightarrow> []
              | Inr json_data \<Rightarrow> filter (\<lambda>t. t \<noteq> []) (map strip (source_strings json_data))))
      else [])"


section \<open>Trimming and splitting\<close>

lemma strip_subset: "set (strip s) \<subseteq> set s"
proof -
  have "set (strip s) \<subseteq> set (dropWhile isspace s)"
    unfolding strip_def using set_dropWhileD by fastforce
  also have "\<dots> \<subseteq> set s"
    using set_dropWhileD by fastforce
  finally show ?thesis .
qed

lemma dropWhile_rev_prefix: "\<exists>zs. t = rev (dropWhile P (rev t)) @ zs"
proof -
  have "rev t = takeWhile P (rev t) @ dropWhile P (rev t)" by simp
  then have "t = rev (dropWhile P (rev t)) @ rev (takeWhile P (rev t))"
    by (metis rev_append rev_rev_ident)
  then show ?thesis by blast
qed

text \<open>Trimming a trimmed text changes nothing.\<close>

lemma strip_idem: "strip (strip s) = strip s"
proof -
  define t where "t = dropWhile isspace s"
  define u where "u = rev (dropWhile isspace (rev t))"
  have su: "strip s = u" by (simp add: strip_def t_def u_def)
  obtain zs where tz: "t = u @ zs" using dropWhile_rev_prefix [of t isspace] u_def by blast
  have hd_t: "t \<noteq> [] \<Longrightarrow> \<not> isspace (hd t)"
    unfolding t_def by (rule hd_dropWhile)
  have "dropWhile isspace u = u"
  proof (cases u)
    case Nil
    then show ?thesis by simp
  next
    case (Cons a as)
    with tz have "t \<noteq> []" and "hd t = a" by simp_all
    with hd_t have "\<not> isspace a" by blast
    with Cons show ?thesis by simp
  qed
  moreover have "rev (dropWhile isspace (rev u)) = u"
    by (simp add: u_def dropWhile_idem)
  ultimately have "strip u = u" by (simp add: strip_def)
  then show ?thesis by (simp only: su)
qed

lemma split_answer_brace:
  assumes "CHR ''{'' \<notin> set pre"
  shows "split_answer (pre @ CHR ''{'' # rest) = (strip pre, CHR ''{'' # rest)"
proof -
  from assms have "takeWhile (\<lambda>c. c \<noteq> CHR ''{'') pre = pre"
    and "dropWhile (\<lambda>c. c \<noteq> CHR ''{'') pre = []"
    by (auto simp: takeWhile_eq_all_conv)
  then show ?thesis
    by (simp add: split_answer_def split_once_def takeWhile_tail dropWhile_append3)
qed

lemma split_answer_plain:
  assumes "CHR ''{'' \<notin> set raw"
  shows "split_answer raw = (raw, ''{}'')"
  using assms by (simp add: split_answer_def)

lemma split_answer_parts:
  assumes "CHR ''{'' \<in> set raw"
  shows "split_answer raw
           = (strip (takeWhile (\<lambda>c. c \<noteq> CHR ''{'') raw), dropWhile (\<lambda>c. c \<noteq> CHR ''{'') raw)"
proof -
  from assms have "dropWhile (\<lambda>c. c \<noteq> CHR ''{'') raw \<noteq> []" by simp
  moreover from this have "hd (dropWhile (\<lambda>c. c \<noteq> CHR ''{'') raw) = CHR ''{''"
    using hd_dropWhile [of "\<lambda>c. c \<noteq> CHR ''{''" raw] by simp
  ultimately have "CHR ''{'' # tl (dropWhile (\<lambda>c. c \<noteq> CHR ''{'') raw)
                     = dropWhile (\<lambda>c. c \<noteq> CHR ''{'') raw"
    by (metis list.collapse)
  with assms show ?thesis by (simp add: split_answer_def split_once_def)
qed

section \<open>Decodings of the example texts\<close>

lemma decode_empty_object: "decode ''{}'' = Some (JObject [])"
  by code_simp

lemma decode_a_b: "decode ''{\"a\": \"b\"}'' = Some (JObject [(''a'', JString ''b'')])"
  by code_simp

lemma decode_filters_empty: "decode ''{\"filters\": {}}'' = Some (JObject [(''filters'', JObject [])])"
  by code_simp

lemma decode_filters_tech:
  "decode ''{\"filters\": {\"industry\": \"tech\"}}''
     = Some (JObject [(''filters'', JObject [(''industry'', JString ''tech'')])])"
  by code_simp

lemma decode_not_json: "decode ''{not json'' = None"
  by code_simp

lemma decode_hi: "decode ''hi'' = None"
  by code_simp

lemma decode_company_type: "decode ''Private Limited Company'' = None"
  by code_simp

lemma decode_summary_text:
  "decode ''{\"summary\": \"s\", \"validated_output\": {}}''
     = Some (JObject [(''summary'', JString ''s''), (''validated_output'', JObject [])])"
  by code_simp

lemma decode_a_x_b_empty:
  "decode ''{\"a\": \"x\", \"b\": \"\"}''
     = Some (JObject [(''a'', JString ''x''), (''b'', JString [])])"
  by code_simp

lemma decode_braces: "decode ''{{'' = None"
  by code_simp

lemma decode_list_file:
  "decode ''[\" u \", {\"k\": \"v\", \"n\": 1}, 3]''
     = Some (JArray [JString '' u '', JObject [(''k'', JString ''v''), (''n'', JInt 1)], JInt 3])"
  by code_simp

lemma strip_examples:
  "strip ''x'' = ''x''" "strip '''' = ''''" "strip '' u '' = ''u''" "strip ''v'' = ''v''"
  "strip ''hi'' = ''hi''" "strip ''Here is info '' = ''Here is info''"
  by (simp_all add: strip_def isspace_def)

lemma example_matches_grouped:
  "group_matches decode_or_raise
     [\<lparr>match_metadata = Some [(''source'', ''company_type.json''),
                              (''text'', ''Private Limited Company'')]\<rparr>]
   = JObject [(''company_type.json'',
               JArray [JObject [(''text'', JString ''Private Limited Company'')]])]"
  by (simp add: group_matches_def group_step_def decode_or_raise_def decode_company_type)

lemma decode_empty_text: "decode [] = None"
  by code_simp

lemma clean_hi_flat:
  "strip (replace [CHR 0x60, CHR 0x60, CHR 0x60] []
            (replace [CHR 0x60, CHR 0x60, CHR 0x60, CHR ''j'', CHR ''s'', CHR ''o'', CHR ''n''] []
               ''hi'')) = ''hi''"
  by code_simp

lemma clean_summary_text:
  "strip (replace [CHR 0x60, CHR 0x60, CHR 0x60] []
            (replace ([CHR 0x60, CHR 0x60, CHR 0x60] @ ''json'') []
               (strip ''{\"summary\": \"s\", \"validated_output\": {}}'')))
   = ''{\"summary\": \"s\", \"validated_output\": {}}''"
  by code_simp

section \<open>The chat handler of app.py and sampleapp.py\<close>

text \<open>
  A request with a message, a retrieval chain that answers and a filters step that
  returns: the response is decided by the write to the history.
\<close>

lemma chat_answers:
  assumes "m \<noteq> []"
    and "rag_invoke sv m = Inr r"
    and "raw = (case r of None \<Rightarrow> [] | Some a \<Rightarrow> a)"
    and "get_filters (json_loads sv) (snd (split_answer raw)) = Inr f"
  shows "fst (chat sv (Some m) w)
         = (case insert_one sv (w\<lparr>calls := calls w @ [RagChain m]\<rparr>)
                  (final_output m (fst (split_answer raw)) f (clock w)) of
              Inl e \<Rightarrow> Inl (TypeError ''Object of type ObjectId is not JSON serializable'')
            | Inr (oid, w2) \<Rightarrow>
                Inr (200, JObject (AList.update ''_id'' (JString oid)
                                     (final_output m (fst (split_answer raw)) f (clock w)))))"
  using assms
  by (simp add: chat_def Let_def split_beta split: sum.splits)

lemma chat_answers_stored:
  assumes "m \<noteq> []"
    and "rag_invoke sv m = Inr r"
    and "raw = (case r of None \<Rightarrow> [] | Some a \<Rightarrow> a)"
    and "get_filters (json_loads sv) (snd (split_answer raw)) = Inr f"
    and "store_fault w = None"
    and "store_refuses sv (final_output m (fst (split_answer raw)) f (clock w)) = None"
  shows "\<exists>body. fst (chat sv (Some m) w) = Inr (200, JObject body)
           \<and> map_of body ''user_input'' = Some (JString m)
           \<and> map_of body ''answer'' = Some (JString (fst (split_answer raw)))
           \<and> map_of body ''filters'' = Some f
           \<and> map_of body ''timestamp'' = Some (JString (clock w))"
  using chat_answers [OF assms(1-4), of w] assms(5,6)
  by (simp add: insert_one_def Let_def final_output_def)

text \<open>When the write raises, the request fails.\<close>

lemma chat_answers_not_stored:
  assumes "m \<noteq> []"
    and "rag_invoke sv m = Inr r"
    and "raw = (case r of None \<Rightarrow> [] | Some a \<Rightarrow> a)"
    and "get_filters (json_loads sv) (snd (split_answer raw)) = Inr f"
    and "store_fault w = Some e
         \<or> store_refuses sv (final_output m (fst (split_answer raw)) f (clock w)) = Some e"
  shows "fst (chat sv (Some m) w)
           = Inl (TypeError ''Object of type ObjectId is not JSON serializable'')"
  using chat_answers [OF assms(1-4), of w] assms(5)
  by (auto simp: insert_one_def Let_def split: option.splits)

text \<open>An exception of the filters step leaves the handler.\<close>

lemma chat_filters_raise:
  assumes "m \<noteq> []"
    and "rag_invoke sv m = Inr r"
    and "raw = (case r of None \<Rightarrow> [] | Some a \<Rightarrow> a)"
    and "get_filters (json_loads sv) (snd (split_answer raw)) = Inl e"
  shows "fst (chat sv (Some m) w) = Inl e"
  using assms
  by (simp add: chat_def Let_def split_beta)

lemma deep_blob_split: "split_answer (CHR ''x'' # CHR '' '' # deep_blob) = (''x'', deep_blob)"
proof -
  have "split_answer (''x '' @ CHR ''{'' # (''\"a\": '' @ deep_nesting))
          = (strip ''x '', CHR ''{'' # (''\"a\": '' @ deep_nesting))"
    by (rule split_answer_brace) simp
  then show ?thesis by (simp add: deep_blob_def strip_def isspace_def)
qed

text \<open>
  Claim C9. For every raw model text the human part of the split holds no \<open>{\<close>. Without
  a brace the split gives the raw text itself and the blob \<open>{}\<close>; with one, the human part
  is the trimmed text before the first brace, that text holds no brace, and the blob is
  the rest of the raw text from the first brace on, so every brace is in the blob.
\<close>

theorem human_part_has_no_brace:
  "CHR ''{'' \<notin> set (fst (split_answer raw))
   \<and> (CHR ''{'' \<notin> set raw \<longrightarrow> split_answer raw = (raw, ''{}''))
   \<and> (CHR ''{'' \<in> set raw \<longrightarrow>
        fst (split_answer raw) = strip (takeWhile (\<lambda>c. c \<noteq> CHR ''{'') raw)
        \<and> CHR ''{'' \<notin> set (takeWhile (\<lambda>c. c \<noteq> CHR ''{'') raw)
        \<and> takeWhile (\<lambda>c. c \<noteq> CHR ''{'') raw @ snd (split_answer raw) = raw)"
proof (cases "CHR ''{'' \<in> set raw")
  case True
  have nb: "CHR ''{'' \<notin> set (takeWhile (\<lambda>c. c \<noteq> CHR ''{'') raw)"
    using set_takeWhileD by fastforce
  then have "CHR ''{'' \<notin> set (strip (takeWhile (\<lambda>c. c \<noteq> CHR ''{'') raw))"
    using strip_subset by blast
  with True nb show ?thesis by (simp add: split_answer_parts)
next
  case False
  then show ?thesis by (simp add: split_answer_plain)
qed

text \<open>The split of the two example texts of the specification.\<close>

theorem human_part_has_no_brace_witness:
  "CHR ''{'' \<notin> set (fst (split_answer ''Here is info {\"filters\": {\"industry\": \"tech\"}}''))
   \<and> split_answer ''Here is info {\"filters\": {\"industry\": \"tech\"}}''
       = (''Here is info'', ''{\"filters\": {\"industry\": \"tech\"}}'')
   \<and> split_answer ''No structured data available.'' = (''No structured data available.'', ''{}'')"
proof -
  have "CHR ''{'' \<in> set ''Here is info {\"filters\": {\"industry\": \"tech\"}}''" by simp
  moreover have "CHR ''{'' \<notin> set ''No structured data available.''" by simp
  ultimately show ?thesis
    using human_part_has_no_brace [of "''Here is info {\"filters\": {\"industry\": \"tech\"}}''"]
          human_part_has_no_brace [of "''No structured data available.''"]
    by (simp add: strip_examples prod_eq_iff)
qed

text \<open>
  Claim C1, as amended. When the model's text is a prefix without a brace followed by
  a blob that begins with a brace and decodes to a JSON object, the split gives the
  trimmed prefix as human part and the blob, and the filters step gives the object's
  entry \<open>filters\<close> when it has one and the empty object when it has none; when the write
  to the history succeeds, the handler answers with status 200 and these two values as
  \<open>answer\<close> and \<open>filters\<close>.
\<close>

theorem extraction_of_prefixed_object:
  assumes "CHR ''{'' \<notin> set pre"
    and "json_loads sv (CHR ''{'' # rest) = Inr (JObject d)"
    and "f = (case map_of d ''filters'' of Some v \<Rightarrow> v | None \<Rightarrow> JObject [])"
  shows "split_answer (pre @ CHR ''{'' # rest) = (strip pre, CHR ''{'' # rest)
       \<and> get_filters (json_loads sv) (CHR ''{'' # rest) = Inr f
       \<and> (m \<noteq> [] \<and> rag_invoke sv m = Inr (Some (pre @ CHR ''{'' # rest))
            \<and> store_fault w = None
            \<and> store_refuses sv (final_output m (strip pre) f (clock w)) = None
          \<longrightarrow> (\<exists>body. fst (chat sv (Some m) w) = Inr (200, JObject body)
                  \<and> map_of body ''answer'' = Some (JString (strip pre))
                  \<and> map_of body ''filters'' = Some f))"
proof (intro conjI impI)
  show sp: "split_answer (pre @ CHR ''{'' # rest) = (strip pre, CHR ''{'' # rest)"
    using assms(1) by (rule split_answer_brace)
  show gf: "get_filters (json_loads sv) (CHR ''{'' # rest) = Inr f"
    by (simp add: get_filters_def assms(2,3) dict_get_def)
  assume a: "m \<noteq> [] \<and> rag_invoke sv m = Inr (Some (pre @ CHR ''{'' # rest))
            \<and> store_fault w = None
            \<and> store_refuses sv (final_output m (strip pre) f (clock w)) = None"
  from a gf sp
    chat_answers_stored [of m sv "Some (pre @ CHR ''{'' # rest)" "pre @ CHR ''{'' # rest" f w]
  show "\<exists>body. fst (chat sv (Some m) w) = Inr (200, JObject body)
                  \<and> map_of body ''answer'' = Some (JString (strip pre))
                  \<and> map_of body ''filters'' = Some f"
    by auto
qed

text \<open>The specification's example: prose, then an object with a \<open>filters\<close> entry.\<close>

theorem extraction_of_prefixed_object_witness:
  "CHR ''{'' \<notin> set ''Here is info ''
   \<and> json_loads example_services ''{\"filters\": {\"industry\": \"tech\"}}''
       = Inr (JObject [(''filters'', JObject [(''industry'', JString ''tech'')])])
   \<and> split_answer ''Here is info {\"filters\": {\"industry\": \"tech\"}}''
       = (''Here is info'', ''{\"filters\": {\"industry\": \"tech\"}}'')
   \<and> get_filters (json_loads example_services) ''{\"filters\": {\"industry\": \"tech\"}}''
       = Inr (JObject [(''industry'', JString ''tech'')])
   \<and> store_fault example_world = None
   \<and> (\<exists>body. fst (chat example_services
                     (Some ''Here is info {\"filters\": {\"industry\": \"tech\"}}'')
                     example_world) = Inr (200, JObject body)
          \<and> map_of body ''answer'' = Some (JString ''Here is info'')
          \<and> map_of body ''filters'' = Some (JObject [(''industry'', JString ''tech'')]))"
  using extraction_of_prefixed_object
          [of "''Here is info ''" example_services "''\"filters\": {\"industry\": \"tech\"}}''"
              "[(''filters'', JObject [(''industry'', JString ''tech'')])]"
              "JObject [(''industry'', JString ''tech'')]"
              "''Here is info {\"filters\": {\"industry\": \"tech\"}}''" example_world]
  by (simp add: example_services_def example_world_def decode_or_raise_def decode_filters_tech
                strip_examples)

text \<open>
  An object without a \<open>filters\<close> entry gives the empty object, not the object itself;
  and a prefix that holds a brace is cut at that brace.
\<close>

theorem extraction_of_prefixed_object_counterexample:
  "decode_or_raise ''{\"a\": \"b\"}'' = Inr (JObject [(''a'', JString ''b'')])
   \<and> map_of [(''a'', JString ''b'')] ''filters'' = None
   \<and> split_answer ''ok {\"a\": \"b\"}'' = (''ok'', ''{\"a\": \"b\"}'')
   \<and> get_filters decode_or_raise ''{\"a\": \"b\"}'' = Inr (JObject [])
   \<and> JObject [] \<noteq> JObject [(''a'', JString ''b'')]
   \<and> decode_or_raise ''{\"filters\": {}}'' = Inr (JObject [(''filters'', JObject [])])
   \<and> CHR ''{'' \<in> set ''a{b} ''
   \<and> fst (split_answer (''a{b} '' @ ''{\"filters\": {}}'')) = ''a''
   \<and> strip ''a{b} '' = ''a{b}''
   \<and> ''a'' \<noteq> ''a{b}''"
  by (simp add: decode_or_raise_def decode_a_b decode_filters_empty get_filters_def dict_get_def
                split_answer_def split_once_def strip_def isspace_def)

text \<open>
  Claim C2. The claim asks for the raw text with surrounding whitespace trimmed. At the
  model text \<open>" hi "\<close>, which holds no brace, the split returns the text with its blanks
  and the handler answers with them, where trimming gives \<open>"hi"\<close>; the filters are the
  empty object, as the claim says.
\<close>

theorem text_without_brace_keeps_blanks:
  "CHR ''{'' \<notin> set '' hi ''
   \<and> split_answer '' hi '' = ('' hi '', ''{}'')
   \<and> strip '' hi '' = ''hi''
   \<and> '' hi '' \<noteq> ''hi''
   \<and> get_filters (json_loads example_services) ''{}'' = Inr (JObject [])
   \<and> fst (chat example_services (Some '' hi '') example_world)
       = Inr (200, JObject [(''user_input'', JString '' hi ''),
                            (''answer'', JString '' hi ''),
                            (''filters'', JObject []),
                            (''timestamp'', JString ''2025-01-01 10:00:00''),
                            (''_id'', JString ''a'')])"
proof -
  have sp: "split_answer '' hi '' = ('' hi '', ''{}'')"
    by (simp add: split_answer_def)
  have gf: "get_filters (json_loads example_services) ''{}'' = Inr (JObject [])"
    by (simp add: get_filters_def example_services_def decode_or_raise_def decode_empty_object
                  dict_get_def)
  have "fst (chat example_services (Some '' hi '') example_world)
       = Inr (200, JObject [(''user_input'', JString '' hi ''),
                            (''answer'', JString '' hi ''),
                            (''filters'', JObject []),
                            (''timestamp'', JString ''2025-01-01 10:00:00''),
                            (''_id'', JString ''a'')])"
    using chat_answers [of "'' hi ''" example_services "Some '' hi ''" "'' hi ''" "JObject []"
                           example_world] gf
    by (simp add: sp insert_one_def final_output_def Let_def example_services_def
                  example_world_def)
  with sp gf show ?thesis by (simp add: strip_def isspace_def)
qed

text \<open>
  What the branch without a brace does for every such text: the whole text, unchanged,
  and the blob \<open>{}\<close>, whose filters are empty.
\<close>

lemma text_without_brace:
  assumes "CHR ''{'' \<notin> set raw"
    and "json_loads sv ''{}'' = Inr (JObject [])"
  shows "split_answer raw = (raw, ''{}'')"
    and "get_filters (json_loads sv) (snd (split_answer raw)) = Inr (JObject [])"
  using assms by (simp_all add: split_answer_plain get_filters_def dict_get_def)

section \<open>A missing or empty message\<close>

text \<open>
  Claim C3, as amended. When the form field \<open>msg\<close> is missing or empty, the handler of
  app.py and sampleapp.py answers with status 400 and the body
  \<open>{"error": "No message provided"}\<close>, and the handlers of test2.py and test3.py answer
  with status 200 and a body that holds the summary \<open>Please enter a query.\<close> and empty
  output fields; none of them calls retrieval or generation or writes to the history:
  the state after the request is the state before it.
\<close>

theorem missing_message:
  assumes "msg = None \<or> msg = Some []"
  shows "chat sv msg w = (Inr (400, JObject [(''error'', JString ''No message provided'')]), w)
       \<and> chat_test2 sv msg w
           = (Inr (200, JObject [(''summary'', JString ''Please enter a query.''),
                                 (''structured_output'', JObject [])]), w)
       \<and> chat_test3 sv msg w
           = ((200, JObject [(''summary'', JString ''Please enter a query.''),
                             (''validated_output'', JObject []),
                             (''elasticsearch_query'', JObject [])]), w)"
  using assms by (auto simp: chat_def chat_test2_def chat_test3_def strip_def)

text \<open>A request without the field, and one with the empty text.\<close>

theorem missing_message_witness:
  "chat example_services None example_world
     = (Inr (400, JObject [(''error'', JString ''No message provided'')]), example_world)
   \<and> calls (snd (chat example_services (Some []) example_world)) = []
   \<and> chat_collection (snd (chat example_services (Some []) example_world)) = []
   \<and> fst (chat_test3 example_services None example_world)
       = (200, JObject [(''summary'', JString ''Please enter a query.''),
                        (''validated_output'', JObject []),
                        (''elasticsearch_query'', JObject [])])"
  using missing_message [of None example_services example_world]
        missing_message [of "Some []" example_services example_world]
  by (simp add: example_world_def)

text \<open>The handler of test2.py answers a request without the field with status 200 and no \<open>error\<close> entry.\<close>

theorem missing_message_counterexample:
  "fst (chat_test2 example_services None example_world)
     = Inr (200, JObject [(''summary'', JString ''Please enter a query.''),
                          (''structured_output'', JObject [])])
   \<and> (200::nat) \<noteq> 400
   \<and> map_of [(''summary'', JString ''Please enter a query.''),
              (''structured_output'', JObject [])] ''error'' = None"
  by (simp add: chat_test2_def strip_def)

section \<open>Model output that does not decode\<close>

lemma chat_test3_response:
  assumes "strip m \<noteq> []"
    and "retrieve sv (strip m) = Inr matches"
  shows "fst (chat_test3 sv (Some m) w)
         = (200, JObject
              [(''summary'',
                case parse_llm_output sv (strip m) (group_matches (json_loads sv) matches) of
                  Inr t \<Rightarrow> fst t
                | Inl e \<Rightarrow> JString (''Error validating or generating query: '' @ error_text e)),
               (''validated_output'', group_matches (json_loads sv) matches),
               (''elasticsearch_query'',
                case parse_llm_output sv (strip m) (group_matches (json_loads sv) matches) of
                  Inr t \<Rightarrow> snd (snd t)
                | Inl e \<Rightarrow> JObject [])])"
  using assms
  by (simp add: chat_test3_def Let_def split_beta split: sum.splits)

lemma repair_fails:
  assumes "json_loads sv t = Inl (JSONDecodeError e1)"
    and "repair_json sv t = Inl e2
         \<or> (repair_json sv t = Inr r \<and> json_loads sv r = Inl e3 \<and> e2 = error_text e3)"
  shows "validate_and_repair_json sv t = Inl (ValueError (''Failed to repair/parse JSON: '' @ e2))"
  using assms by (auto simp: validate_and_repair_json_def)

text \<open>
  Claim C4, as amended. In app.py and sampleapp.py, when \<open>json.loads\<close> raises
  \<open>JSONDecodeError\<close> on the blob of the model's text, the filters step gives the empty
  object, and when the write to the history succeeds the response has status 200 and
  the empty object as \<open>filters\<close>. In test3.py, when \<open>json.loads\<close> raises
  \<open>JSONDecodeError\<close> on the cleaned model output and the repair raises or gives text
  that does not decode either, the response has status 200, the empty object as
  \<open>elasticsearch_query\<close> and the error text as \<open>summary\<close>.
\<close>

theorem malformed_output_gives_empty_filters:
  "(json_loads sv (snd (split_answer raw)) = Inl (JSONDecodeError e)
    \<longrightarrow> get_filters (json_loads sv) (snd (split_answer raw)) = Inr (JObject []))
   \<and> (m \<noteq> [] \<and> rag_invoke sv m = Inr (Some raw)
      \<and> json_loads sv (snd (split_answer raw)) = Inl (JSONDecodeError e)
      \<and> store_fault w = None
      \<and> store_refuses sv (final_output m (fst (split_answer raw)) (JObject []) (clock w)) = None
    \<longrightarrow> (\<exists>body. fst (chat sv (Some m) w) = Inr (200, JObject body)
            \<and> map_of body ''filters'' = Some (JObject [])))
   \<and> (strip q \<noteq> [] \<and> retrieve sv (strip q) = Inr matches
      \<and> llm_invoke sv (strip q) (group_matches (json_loads sv) matches) = Inr out
      \<and> t = strip (replace [CHR 0x60, CHR 0x60, CHR 0x60] []
                     (replace ([CHR 0x60, CHR 0x60, CHR 0x60] @ ''json'') [] (strip out)))
      \<and> json_loads sv t = Inl (JSONDecodeError e1)
      \<and> (repair_json sv t = Inl e2
          \<or> (repair_json sv t = Inr r \<and> json_loads sv r = Inl e3 \<and> e2 = error_text e3))
    \<longrightarrow> (\<exists>body. fst (chat_test3 sv (Some q) w) = (200, JObject body)
            \<and> map_of body ''elasticsearch_query'' = Some (JObject [])
            \<and> map_of body ''summary''
                = Some (JString (''Error validating or generating query: ''
                                 @ ''Failed to repair/parse JSON: '' @ e2))))"
proof (intro conjI impI)
  assume "json_loads sv (snd (split_answer raw)) = Inl (JSONDecodeError e)"
  then show "get_filters (json_loads sv) (snd (split_answer raw)) = Inr (JObject [])"
    by (simp add: get_filters_def)
next
  assume a: "m \<noteq> [] \<and> rag_invoke sv m = Inr (Some raw)
      \<and> json_loads sv (snd (split_answer raw)) = Inl (JSONDecodeError e)
      \<and> store_fault w = None
      \<and> store_refuses sv (final_output m (fst (split_answer raw)) (JObject []) (clock w)) = None"
  then have "get_filters (json_loads sv) (snd (split_answer raw)) = Inr (JObject [])"
    by (simp add: get_filters_def)
  with a chat_answers_stored [of m sv "Some raw" raw "JObject []" w]
  show "\<exists>body. fst (chat sv (Some m) w) = Inr (200, JObject body)
            \<and> map_of body ''filters'' = Some (JObject [])"
    by auto
next
  assume a: "strip q \<noteq> [] \<and> retrieve sv (strip q) = Inr matches
      \<and> llm_invoke sv (strip q) (group_matches (json_loads sv) matches) = Inr out
      \<and> t = strip (replace [CHR 0x60, CHR 0x60, CHR 0x60] []
                     (replace ([CHR 0x60, CHR 0x60, CHR 0x60] @ ''json'') [] (strip out)))
      \<and> json_loads sv t = Inl (JSONDecodeError e1)
      \<and> (repair_json sv t = Inl e2
          \<or> (repair_json sv t = Inr r \<and> json_loads sv r = Inl e3 \<and> e2 = error_text e3))"
  then have "validate_and_repair_json sv t
               = Inl (ValueError (''Failed to repair/parse JSON: '' @ e2))"
    using repair_fails [of sv t e1 e2 r e3] by blast
  with a have "parse_llm_output sv (strip q) (group_matches (json_loads sv) matches)
                 = Inl (ValueError (''Failed to repair/parse JSON: '' @ e2))"
    by (simp add: parse_llm_output_def del: replace.simps)
  with a chat_test3_response [of q sv matches w]
  show "\<exists>body. fst (chat_test3 sv (Some q) w) = (200, JObject body)
            \<and> map_of body ''elasticsearch_query'' = Some (JObject [])
            \<and> map_of body ''summary''
                = Some (JString (''Error validating or generating query: ''
                                 @ ''Failed to repair/parse JSON: '' @ e2))"
    by (simp add: error_text_def)
qed

text \<open>
  An unclosed object after the prose with a store that takes the entry, and a model
  output that is no JSON and that the repair turns into the empty text.
\<close>

theorem malformed_output_gives_empty_filters_witness:
  "json_loads example_services (snd (split_answer ''oops {not json''))
     = Inl (JSONDecodeError ''Expecting value'')
   \<and> get_filters (json_loads example_services) (snd (split_answer ''oops {not json''))
       = Inr (JObject [])
   \<and> store_fault example_world = None
   \<and> (\<exists>body. fst (chat example_services (Some ''oops {not json'') example_world)
                = Inr (200, JObject body)
          \<and> map_of body ''filters'' = Some (JObject []))
   \<and> json_loads example_services ''hi'' = Inl (JSONDecodeError ''Expecting value'')
   \<and> repair_json example_services ''hi'' = Inr []
   \<and> json_loads example_services [] = Inl (JSONDecodeError ''Expecting value'')
   \<and> (\<exists>body. fst (chat_test3 example_services (Some ''hi'') example_world)
                = (200, JObject body)
          \<and> map_of body ''elasticsearch_query'' = Some (JObject [])
          \<and> map_of body ''summary''
              = Some (JString (''Error validating or generating query: ''
                               @ ''Failed to repair/parse JSON: Expecting value'')))"
proof -
  have sp: "split_answer ''oops {not json'' = (''oops'', ''{not json'')"
    by (simp add: split_answer_def split_once_def strip_def isspace_def)
  show ?thesis
    using malformed_output_gives_empty_filters
            [of example_services "''oops {not json''" "''Expecting value''"
                "''oops {not json''" example_world "''hi''"
                "[\<lparr>match_metadata = Some [(''source'', ''company_type.json''),
                                          (''text'', ''Private Limited Company'')]\<rparr>]"
                "''hi''" "''hi''" "''Expecting value''" "''Expecting value''" "[]"
                "JSONDecodeError ''Expecting value''"]
    by (simp add: sp example_services_def example_world_def decode_or_raise_def decode_not_json
                  decode_hi decode_empty_text strip_examples clean_hi_flat error_text_def
             del: replace.simps)
qed

text \<open>
  A blob on which \<open>json.loads\<close> raises \<open>RecursionError\<close> leaves the handler as that
  exception; and with a store that is down the request fails although the filters step
  gave the empty object.
\<close>

theorem malformed_output_gives_empty_filters_counterexample:
  "json_loads deep_services (snd (split_answer (''x '' @ deep_blob)))
     = Inl (RecursionError ''maximum recursion depth exceeded while decoding a JSON array from a unicode string'')
   \<and> fst (chat deep_services (Some (''x '' @ deep_blob)) example_world)
       = Inl (RecursionError ''maximum recursion depth exceeded while decoding a JSON array from a unicode string'')
   \<and> json_loads example_services (snd (split_answer ''oops {not json''))
       = Inl (JSONDecodeError ''Expecting value'')
   \<and> get_filters (json_loads example_services) (snd (split_answer ''oops {not json''))
       = Inr (JObject [])
   \<and> fst (chat example_services (Some ''oops {not json'')
             (example_world\<lparr>store_fault := Some ''down''\<rparr>))
       = Inl (TypeError ''Object of type ObjectId is not JSON serializable'')"
proof -
  have sp: "split_answer ''oops {not json'' = (''oops'', ''{not json'')"
    by (simp add: split_answer_def split_once_def strip_def isspace_def)
  have l: "json_loads example_services ''{not json'' = Inl (JSONDecodeError ''Expecting value'')"
    by (simp add: example_services_def decode_or_raise_def decode_not_json)
  have gf: "get_filters (json_loads example_services) (snd (split_answer ''oops {not json''))
              = Inr (JObject [])"
    by (simp add: sp l get_filters_def)
  have down: "fst (chat example_services (Some ''oops {not json'')
             (example_world\<lparr>store_fault := Some ''down''\<rparr>))
       = Inl (TypeError ''Object of type ObjectId is not JSON serializable'')"
    using chat_answers_not_stored
            [of "''oops {not json''" example_services "Some ''oops {not json''"
                "''oops {not json''" "JObject []"
                "example_world\<lparr>store_fault := Some ''down''\<rparr>" "''down''"] gf
    by (simp add: example_services_def)
  have dl: "json_loads deep_services deep_blob
     = Inl (RecursionError ''maximum recursion depth exceeded while decoding a JSON array from a unicode string'')"
    by (simp add: deep_services_def)
  have ne: "''x '' @ deep_blob \<noteq> []" by simp
  have deep: "fst (chat deep_services (Some (''x '' @ deep_blob)) example_world)
       = Inl (RecursionError ''maximum recursion depth exceeded while decoding a JSON array from a unicode string'')"
  proof (rule chat_filters_raise [OF ne])
    show "rag_invoke deep_services (''x '' @ deep_blob) = Inr (Some (''x '' @ deep_blob))"
      by (simp add: deep_services_def example_services_def)
    show "''x '' @ deep_blob = (case Some (''x '' @ deep_blob) of None \<Rightarrow> [] | Some a \<Rightarrow> a)"
      by simp
    show "get_filters (json_loads deep_services) (snd (split_answer (''x '' @ deep_blob)))
            = Inl (RecursionError ''maximum recursion depth exceeded while decoding a JSON array from a unicode string'')"
      by (simp add: deep_blob_split dl get_filters_def)
  qed
  from deep dl down gf l show ?thesis by (simp add: deep_blob_split sp)
qed

section \<open>The history\<close>








text \<open>Every document the chat handler stores has a text timestamp.\<close>

lemma chat_keeps_timestamps:
  assumes "\<forall>d\<in>set (chat_collection w). has_timestamp d"
  shows "\<forall>d\<in>set (chat_collection (snd (chat sv msg w))). has_timestamp d"
  using assms
  by (auto simp: chat_def insert_one_def final_output_def Let_def split_beta has_timestamp_def
                 update_conv'
           split: option.splits sum.splits)



section \<open>The document loader\<close>

text \<open>The loop over a dict appends one document for each entry whose value is text that is not blank.\<close>

lemma add_items_eq:
  "add_items file_name extra items documents
     = documents @ [\<lparr>page_content = strip s,
                     metadata = [(''source'', JString file_name), (''key'', JString key)] @ extra\<rparr>.
                    (key, JString s) \<leftarrow> items, strip s \<noteq> []]"
proof (induction items arbitrary: documents)
  case Nil
  then show ?case by (simp add: add_items_def)
next
  case (Cons kv items)
  obtain key v where kv: "kv = (key, v)" by (cases kv)
  have step: "add_items file_name extra (kv # items) documents
        = add_items file_name extra items
            (case v of
               JString s \<Rightarrow>
                 if strip s \<noteq> [] then
                   documents @ [\<lparr>page_content = strip s,
                            metadata = [(''source'', JString file_name), (''key'', JString key)]
                                       @ extra\<rparr>]
                 else documents
             | _ \<Rightarrow> documents)"
    by (simp add: add_items_def kv)
  show ?case
    unfolding step Cons.IH by (cases v) (simp_all add: kv)
qed

lemma add_items_top:
  "add_items file_name [] items documents
     = documents @ [\<lparr>page_content = strip s,
                     metadata = [(''source'', JString file_name), (''key'', JString key)]\<rparr>.
                    (key, JString s) \<leftarrow> items, strip s \<noteq> []]"
proof (induction items arbitrary: documents)
  case Nil
  then show ?case by (simp add: add_items_def)
next
  case (Cons kv items)
  obtain key v where kv: "kv = (key, v)" by (cases kv)
  have step: "add_items file_name [] (kv # items) documents
        = add_items file_name [] items
            (case v of
               JString s \<Rightarrow>
                 if strip s \<noteq> [] then
                   documents @ [\<lparr>page_content = strip s,
                            metadata = [(''source'', JString file_name), (''key'', JString key)]\<rparr>]
                 else documents
             | _ \<Rightarrow> documents)"
    by (cases v) (simp_all add: add_items_def kv)
  show ?case
    unfolding step Cons.IH by (cases v) (simp_all add: kv)
qed

subsection \<open>Documents are only ever appended\<close>

lemma fold_appends:
  assumes "\<And>x d. g x d = d @ g x []"
  shows "fold g xs d = d @ fold g xs []"
proof (induction xs arbitrary: d)
  case Nil
  then show ?case by simp
next
  case (Cons x xs)
  have "fold g (x # xs) d = fold g xs (g x d)" by simp
  also have "\<dots> = g x d @ fold g xs []" by (rule Cons.IH)
  also have "\<dots> = d @ (g x [] @ fold g xs [])" using assms [of x d] by simp
  also have "g x [] @ fold g xs [] = fold g xs (g x [])" by (rule Cons.IH [symmetric])
  finally show ?case by simp
qed

lemma add_items_appends:
  "add_items file_name extra items documents = documents @ add_items file_name extra items []"
  by (simp add: add_items_eq)

lemma add_records_appends:
  "add_records file_name records documents = documents @ add_records file_name records []"
  unfolding add_records_def
proof (rule fold_appends)
  fix x :: "nat \<times> json" and d :: "document list"
  obtain i r where x: "x = (i, r)" by (cases x)
  show "(case x of
           (i, r) \<Rightarrow> \<lambda>docs.
             case r of
               JObject d \<Rightarrow> add_items file_name [(''index'', JInt (int i))] d docs
             | JString s \<Rightarrow>
                 if strip s \<noteq> [] then
                   docs @ [\<lparr>page_content = strip s,
                            metadata = [(''source'', JString file_name),
                                        (''index'', JInt (int i))]\<rparr>]
                 else docs
             | _ \<Rightarrow> docs) d
        = d @ (case x of
           (i, r) \<Rightarrow> \<lambda>docs.
             case r of
               JObject d \<Rightarrow> add_items file_name [(''index'', JInt (int i))] d docs
             | JString s \<Rightarrow>
                 if strip s \<noteq> [] then
                   docs @ [\<lparr>page_content = strip s,
                            metadata = [(''source'', JString file_name),
                                        (''index'', JInt (int i))]\<rparr>]
                 else docs
             | _ \<Rightarrow> docs) []"
    by (cases r) (simp_all add: x add_items_appends [where documents = d])
qed

lemma load_file_appends:
  "fst (load_file loads entry (documents, errors))
     = documents @ fst (load_file loads entry ([], []))"
  by (cases entry)
     (simp add: load_file_def add_items_appends [where documents = documents]
                add_records_appends [where documents = documents]
           split: option.splits sum.splits json.splits)

lemma fold_load_file_appends:
  "fst (fold (load_file loads) listing (documents, errors))
     = documents @ fst (fold (load_file loads) listing ([], []))"
proof (induction listing arbitrary: documents errors)
  case Nil
  then show ?case by simp
next
  case (Cons entry listing)
  obtain d1 e1 where s1: "load_file loads entry (documents, errors) = (d1, e1)"
    by (cases "load_file loads entry (documents, errors)")
  obtain d0 e0 where s0: "load_file loads entry ([], []) = (d0, e0)"
    by (cases "load_file loads entry ([], [])")
  have d1: "d1 = documents @ d0"
    using load_file_appends [of loads entry documents errors] by (simp add: s1 s0)
  have "fst (fold (load_file loads) (entry # listing) (documents, errors))
          = d1 @ fst (fold (load_file loads) listing ([], []))"
    using Cons.IH [where documents = d1 and errors = e1] by (simp add: s1)
  moreover have "fst (fold (load_file loads) (entry # listing) ([], []))
          = d0 @ fst (fold (load_file loads) listing ([], []))"
    using Cons.IH [where documents = d0 and errors = e0] by (simp add: s0)
  ultimately show ?case by (simp add: d1)
qed

text \<open>The documents of a folder are those of its files, in the order of the listing.\<close>

lemma load_json_files_append:
  "fst (load_json_files loads (xs @ ys))
     = fst (load_json_files loads xs) @ fst (load_json_files loads ys)"
proof -
  obtain d1 e1 where s1: "fold (load_file loads) xs ([], []) = (d1, e1)"
    by (cases "fold (load_file loads) xs ([], [])")
  show ?thesis
    using fold_load_file_appends [of loads ys d1 e1] by (simp add: load_json_files_def s1)
qed

lemma errors_grow:
  "set errors \<subseteq> set (snd (fold (load_file loads) listing (documents, errors)))"
proof (induction listing arbitrary: documents errors)
  case Nil
  then show ?case by simp
next
  case (Cons entry listing)
  obtain d1 e1 where s1: "load_file loads entry (documents, errors) = (d1, e1)"
    by (cases "load_file loads entry (documents, errors)")
  then have "set errors \<subseteq> set e1"
    by (cases entry) (auto simp: load_file_def split: option.splits sum.splits json.splits if_splits)
  with Cons.IH [where documents = d1 and errors = e1] show ?case by (auto simp: s1)
qed

lemma load_file_malformed:
  assumes "loads t = Inl e"
  shows "load_file loads (file_name, Some t) (documents, errors)
           = (documents, if endswith file_name ''.json'' then errors @ [file_name] else errors)"
  using assms by (simp add: load_file_def)

subsection \<open>The example folder\<close>

lemma endswith_examples:
  "endswith ''a.json'' ''.json''" "endswith ''bad.json'' ''.json''" "endswith ''c.json'' ''.json''"
  by (simp_all add: endswith_def)

lemma example_folder_loaded:
  "load_json_files decode_or_raise example_folder
     = ([\<lparr>page_content = ''x'',
           metadata = [(''source'', JString ''a.json''), (''key'', JString ''a'')]\<rparr>,
         \<lparr>page_content = ''u'',
           metadata = [(''source'', JString ''c.json''), (''index'', JInt 0)]\<rparr>,
         \<lparr>page_content = ''v'',
           metadata = [(''source'', JString ''c.json''), (''key'', JString ''k''),
                       (''index'', JInt 1)]\<rparr>],
        [''bad.json''])"
  by (simp add: example_folder_def load_json_files_def load_file_def decode_or_raise_def
                decode_a_x_b_empty decode_braces decode_list_file endswith_examples
                add_items_def add_records_def strip_examples enumerate_eq_zip upt_rec)

lemma example_folder_without_bad:
  "load_json_files decode_or_raise
     [(''a.json'', Some ''{\"a\": \"x\", \"b\": \"\"}''),
      (''c.json'', Some ''[\" u \", {\"k\": \"v\", \"n\": 1}, 3]'')]
     = ([\<lparr>page_content = ''x'',
           metadata = [(''source'', JString ''a.json''), (''key'', JString ''a'')]\<rparr>,
         \<lparr>page_content = ''u'',
           metadata = [(''source'', JString ''c.json''), (''index'', JInt 0)]\<rparr>,
         \<lparr>page_content = ''v'',
           metadata = [(''source'', JString ''c.json''), (''key'', JString ''k''),
                       (''index'', JInt 1)]\<rparr>],
        [])"
  by (simp add: load_json_files_def load_file_def decode_or_raise_def
                decode_a_x_b_empty decode_list_file endswith_examples
                add_items_def add_records_def strip_examples enumerate_eq_zip upt_rec)

subsection \<open>Object-shaped files\<close>

text \<open>
  Claim C6. For a file whose name ends in \<open>.json\<close> and whose content decodes to a
  top-level object, the loader adds, at the file's place among the documents of the
  folder, exactly one document for each key whose value is text that is not empty after
  trimming, with the trimmed text as content and the file name and that key as metadata,
  in the order of the keys; other values and blank text add nothing.
\<close>

theorem object_file_records:
  assumes "endswith file_name ''.json''"
    and "loads content = Inr (JObject d)"
  shows "fst (load_json_files loads (before @ (file_name, Some content) # after))
           = fst (load_json_files loads before)
             @ [\<lparr>page_content = strip s,
                  metadata = [(''source'', JString file_name), (''key'', JString key)]\<rparr>.
                (key, JString s) \<leftarrow> d, strip s \<noteq> []]
             @ fst (load_json_files loads after)"
proof -
  have one: "fst (load_json_files loads [(file_name, Some content)])
           = [\<lparr>page_content = strip s,
                 metadata = [(''source'', JString file_name), (''key'', JString key)]\<rparr>.
               (key, JString s) \<leftarrow> d, strip s \<noteq> []]"
    using assms by (simp add: load_json_files_def load_file_def add_items_top)
  have "fst (load_json_files loads (before @ [(file_name, Some content)] @ after))
          = fst (load_json_files loads before)
            @ fst (load_json_files loads [(file_name, Some content)])
            @ fst (load_json_files loads after)"
    by (simp only: load_json_files_append)
  then show ?thesis by (simp add: one)
qed

text \<open>A folder with the one file \<open>{"a": "x", "b": ""}\<close> gives exactly one document.\<close>

theorem object_file_records_witness:
  "endswith ''a.json'' ''.json''
   \<and> decode_or_raise ''{\"a\": \"x\", \"b\": \"\"}''
       = Inr (JObject [(''a'', JString ''x''), (''b'', JString [])])
   \<and> fst (load_json_files decode_or_raise [(''a.json'', Some ''{\"a\": \"x\", \"b\": \"\"}'')])
       = [\<lparr>page_content = ''x'',
            metadata = [(''source'', JString ''a.json''), (''key'', JString ''a'')]\<rparr>]
   \<and> length (fst (load_json_files decode_or_raise
                     [(''a.json'', Some ''{\"a\": \"x\", \"b\": \"\"}'')])) = 1"
proof -
  have e: "endswith ''a.json'' ''.json''" by (simp add: endswith_def)
  have d: "decode_or_raise ''{\"a\": \"x\", \"b\": \"\"}''
             = Inr (JObject [(''a'', JString ''x''), (''b'', JString [])])"
    by (simp add: decode_or_raise_def decode_a_x_b_empty)
  have nil: "fst (load_json_files decode_or_raise []) = []"
    by (simp add: load_json_files_def)
  from object_file_records
         [where file_name = "''a.json''" and loads = decode_or_raise
            and content = "''{\"a\": \"x\", \"b\": \"\"}''"
            and d = "[(''a'', JString ''x''), (''b'', JString [])]"
            and before = "[]" and after = "[]"] e d
  have "fst (load_json_files decode_or_raise [(''a.json'', Some ''{\"a\": \"x\", \"b\": \"\"}'')])
       = [\<lparr>page_content = ''x'',
            metadata = [(''source'', JString ''a.json''), (''key'', JString ''a'')]\<rparr>]"
    by (simp add: nil strip_examples)
  with e d show ?thesis by simp
qed

subsection \<open>Malformed files\<close>

text \<open>
  Claim C7. When the content of a file does not decode, the file alone gives no
  document, the documents of a folder holding it are those of the folder without it,
  whatever files come before and after, and, when its name ends in \<open>.json\<close>, the file
  is among those reported as errors.
\<close>

theorem malformed_file_is_skipped:
  assumes "loads t = Inl e"
  shows "fst (load_json_files loads [(file_name, Some t)]) = []
       \<and> fst (load_json_files loads (before @ (file_name, Some t) # after))
           = fst (load_json_files loads (before @ after))
       \<and> (endswith file_name ''.json'' \<longrightarrow>
            file_name \<in> set (snd (load_json_files loads (before @ (file_name, Some t) # after))))"
proof (intro conjI impI)
  show one: "fst (load_json_files loads [(file_name, Some t)]) = []"
    using assms by (simp add: load_json_files_def load_file_malformed)
  have "fst (load_json_files loads (before @ [(file_name, Some t)] @ after))
          = fst (load_json_files loads before)
            @ fst (load_json_files loads [(file_name, Some t)])
            @ fst (load_json_files loads after)"
    by (simp only: load_json_files_append)
  then show "fst (load_json_files loads (before @ (file_name, Some t) # after))
           = fst (load_json_files loads (before @ after))"
    by (simp add: one load_json_files_append)
next
  assume js: "endswith file_name ''.json''"
  obtain d1 e1 where s1: "fold (load_file loads) before ([], []) = (d1, e1)"
    by (cases "fold (load_file loads) before ([], [])")
  have "set (e1 @ [file_name])
          \<subseteq> set (snd (fold (load_file loads) after (d1, e1 @ [file_name])))"
    by (rule errors_grow)
  then show "file_name \<in> set (snd (load_json_files loads (before @ (file_name, Some t) # after)))"
    using assms by (simp add: load_json_files_def s1 load_file_malformed js)
qed

text \<open>The example folder: the malformed file between two files that load.\<close>

theorem malformed_file_is_skipped_witness:
  "decode_or_raise ''{{'' = Inl (JSONDecodeError ''Expecting value'')
   \<and> fst (load_json_files decode_or_raise [(''bad.json'', Some ''{{'')]) = []
   \<and> fst (load_json_files decode_or_raise example_folder)
       = fst (load_json_files decode_or_raise
                [(''a.json'', Some ''{\"a\": \"x\", \"b\": \"\"}''),
                 (''c.json'', Some ''[\" u \", {\"k\": \"v\", \"n\": 1}, 3]'')])
   \<and> length (fst (load_json_files decode_or_raise example_folder)) = 3
   \<and> ''bad.json'' \<in> set (snd (load_json_files decode_or_raise example_folder))"
proof -
  have bad: "decode_or_raise ''{{'' = Inl (JSONDecodeError ''Expecting value'')"
    by (simp add: decode_or_raise_def decode_braces)
  have folder: "example_folder
      = [(''a.json'', Some ''{\"a\": \"x\", \"b\": \"\"}'')]
        @ (''bad.json'', Some ''{{'')
        # [(''c.json'', Some ''[\" u \", {\"k\": \"v\", \"n\": 1}, 3]'')]"
    by (simp add: example_folder_def)
  from malformed_file_is_skipped
         [where loads = decode_or_raise and t = "''{{''" and e = "JSONDecodeError ''Expecting value''"
            and file_name = "''bad.json''"
            and before = "[(''a.json'', Some ''{\"a\": \"x\", \"b\": \"\"}'')]"
            and after = "[(''c.json'', Some ''[\" u \", {\"k\": \"v\", \"n\": 1}, 3]'')]"] bad
  have "fst (load_json_files decode_or_raise [(''bad.json'', Some ''{{'')]) = []"
    and "fst (load_json_files decode_or_raise example_folder)
       = fst (load_json_files decode_or_raise
                [(''a.json'', Some ''{\"a\": \"x\", \"b\": \"\"}''),
                 (''c.json'', Some ''[\" u \", {\"k\": \"v\", \"n\": 1}, 3]'')])"
    and "''bad.json'' \<in> set (snd (load_json_files decode_or_raise example_folder))"
    unfolding folder by (simp_all add: endswith_examples)
  moreover have "length (fst (load_json_files decode_or_raise example_folder)) = 3"
    by (simp add: example_folder_loaded)
  ultimately show ?thesis using bad by simp
qed

subsection \<open>List-shaped files\<close>

lemma add_items_indexed:
  "add_items file_name [(''index'', JInt (int i))] items documents
     = documents @ [\<lparr>page_content = strip s,
                     metadata = [(''source'', JString file_name), (''key'', JString key),
                                 (''index'', JInt (int i))]\<rparr>.
                    (key, JString s) \<leftarrow> items, strip s \<noteq> []]"
proof (induction items arbitrary: documents)
  case Nil
  then show ?case by (simp add: add_items_def)
next
  case (Cons kv items)
  obtain key v where kv: "kv = (key, v)" by (cases kv)
  have step: "add_items file_name [(''index'', JInt (int i))] (kv # items) documents
        = add_items file_name [(''index'', JInt (int i))] items
            (case v of
               JString s \<Rightarrow>
                 if strip s \<noteq> [] then
                   documents @ [\<lparr>page_content = strip s,
                            metadata = [(''source'', JString file_name), (''key'', JString key),
                                        (''index'', JInt (int i))]\<rparr>]
                 else documents
             | _ \<Rightarrow> documents)"
    by (cases v) (simp_all add: add_items_def kv)
  show ?case
    unfolding step Cons.IH by (cases v) (simp_all add: kv)
qed

lemma fold_concat:
  assumes "\<And>x d. g x d = d @ h x"
  shows "fold g xs d = d @ concat (map h xs)"
proof (induction xs arbitrary: d)
  case Nil
  then show ?case by simp
next
  case (Cons x xs)
  have "fold g (x # xs) d = fold g xs (g x d)" by simp
  also have "\<dots> = g x d @ concat (map h xs)" by (rule Cons.IH)
  also have "\<dots> = d @ concat (map h (x # xs))" using assms [of x d] by simp
  finally show ?case .
qed

text \<open>
  The loop over a list appends, item by item, the documents of the items that are
  objects and one document for each item that is text and not blank.
\<close>

lemma add_records_eq:
  "add_records file_name records documents
     = documents
       @ concat (map (\<lambda>(i, r).
                        case r of
                          JObject d \<Rightarrow>
                            [\<lparr>page_content = strip s,
                              metadata = [(''source'', JString file_name), (''key'', JString key),
                                          (''index'', JInt (int i))]\<rparr>.
                             (key, JString s) \<leftarrow> d, strip s \<noteq> []]
                        | JString s \<Rightarrow>
                            if strip s \<noteq> [] then
                              [\<lparr>page_content = strip s,
                                metadata = [(''source'', JString file_name),
                                            (''index'', JInt (int i))]\<rparr>]
                            else []
                        | _ \<Rightarrow> [])
                     (List.enumerate 0 records))"
  unfolding add_records_def
proof (rule fold_concat)
  fix x :: "nat \<times> json" and docs :: "document list"
  obtain i r where x: "x = (i, r)" by (cases x)
  show "(case x of
           (i, r) \<Rightarrow> \<lambda>docs.
             case r of
               JObject d \<Rightarrow> add_items file_name [(''index'', JInt (int i))] d docs
             | JString s \<Rightarrow>
                 if strip s \<noteq> [] then
                   docs @ [\<lparr>page_content = strip s,
                            metadata = [(''source'', JString file_name),
                                        (''index'', JInt (int i))]\<rparr>]
                 else docs
             | _ \<Rightarrow> docs) docs
        = docs @ (case x of
                    (i, r) \<Rightarrow>
                      case r of
                        JObject d \<Rightarrow>
                          [\<lparr>page_content = strip s,
                            metadata = [(''source'', JString file_name), (''key'', JString key),
                                        (''index'', JInt (int i))]\<rparr>.
                           (key, JString s) \<leftarrow> d, strip s \<noteq> []]
                      | JString s \<Rightarrow>
                          if strip s \<noteq> [] then
                            [\<lparr>page_content = strip s,
                              metadata = [(''source'', JString file_name),
                                          (''index'', JInt (int i))]\<rparr>]
                          else []
                      | _ \<Rightarrow> [])"
    by (cases r) (simp_all add: x add_items_indexed)
qed

subsection \<open>The contents are the trimmed source texts\<close>

lemma object_strings_Cons:
  "object_strings ((key, v) # d) = (case v of JString s \<Rightarrow> [s] | _ \<Rightarrow> []) @ object_strings d"
  by (cases v) (simp_all add: object_strings_def)

lemma add_items_contents:
  "map page_content (add_items file_name extra items documents)
     = map page_content documents @ filter (\<lambda>t. t \<noteq> []) (map strip (object_strings items))"
proof (induction items arbitrary: documents)
  case Nil
  then show ?case by (simp add: add_items_def object_strings_def)
next
  case (Cons kv items)
  obtain key v where kv: "kv = (key, v)" by (cases kv)
  have step: "add_items file_name extra (kv # items) documents
        = add_items file_name extra items
            (case v of
               JString s \<Rightarrow>
                 if strip s \<noteq> [] then
                   documents @ [\<lparr>page_content = strip s,
                            metadata = [(''source'', JString file_name), (''key'', JString key)]
                                       @ extra\<rparr>]
                 else documents
             | _ \<Rightarrow> documents)"
    by (simp add: add_items_def kv)
  show ?case
    unfolding step Cons.IH by (cases v) (simp_all add: kv object_strings_Cons)
qed

lemma add_records_contents_aux:
  "map page_content
     (fold (\<lambda>(i, r) docs.
             case r of
               JObject d \<Rightarrow> add_items file_name [(''index'', JInt (int i))] d docs
             | JString s \<Rightarrow>
                 if strip s \<noteq> [] then
                   docs @ [\<lparr>page_content = strip s,
                            metadata = [(''source'', JString file_name),
                                        (''index'', JInt (int i))]\<rparr>]
                 else docs
             | _ \<Rightarrow> docs) (List.enumerate n records) documents)
   = map page_content documents
     @ filter (\<lambda>t. t \<noteq> []) (map strip (concat (map item_strings records)))"
proof (induction records arbitrary: n documents)
  case Nil
  then show ?case by simp
next
  case (Cons r records)
  show ?case
    unfolding enumerate_simps fold_simps
    by (cases r) (simp_all add: Cons.IH item_strings_def add_items_contents)
qed

lemma add_records_contents:
  "map page_content (add_records file_name records documents)
     = map page_content documents
       @ filter (\<lambda>t. t \<noteq> []) (map strip (concat (map item_strings records)))"
  unfolding add_records_def by (rule add_records_contents_aux)

lemma load_file_contents:
  "map page_content (fst (load_file loads entry (documents, errors)))
     = map page_content documents @ loaded_texts loads entry"
  by (cases entry)
     (simp add: load_file_def loaded_texts_def source_strings_def add_items_contents
                add_records_contents
           split: option.splits sum.splits json.splits)

lemma fold_load_file_contents:
  "map page_content (fst (fold (load_file loads) listing (documents, errors)))
     = map page_content documents @ concat (map (loaded_texts loads) listing)"
proof (induction listing arbitrary: documents errors)
  case Nil
  then show ?case by simp
next
  case (Cons entry listing)
  obtain d1 e1 where s1: "load_file loads entry (documents, errors) = (d1, e1)"
    by (cases "load_file loads entry (documents, errors)")
  have "map page_content d1 = map page_content documents @ loaded_texts loads entry"
    using load_file_contents [of loads entry documents errors] by (simp add: s1)
  then show ?case
    using Cons.IH [where documents = d1 and errors = e1] by (simp add: s1)
qed

subsection \<open>No blank text\<close>

lemma loaded_texts_nonblank:
  assumes "t \<in> set (loaded_texts loads entry)"
  shows "t \<noteq> [] \<and> strip t = t"
proof -
  from assms obtain json_data
    where "t \<in> set (filter (\<lambda>t. t \<noteq> []) (map strip (source_strings json_data)))"
    by (cases "endswith (fst entry) ''.json''"; cases "snd entry")
       (auto simp: loaded_texts_def split: sum.splits)
  then obtain s where "t = strip s" and "t \<noteq> []" by auto
  then show ?thesis by (simp add: strip_idem)
qed

text \<open>
  Claim C8. The contents of the documents the loader returns are, in the order of the
  folder, the trimmed source texts of its files that are not empty after trimming: the
  text values of a top-level object, and in a top-level list the items that are text and
  the text values of the items that are objects. So every document has a content that is
  not empty and that trimming leaves unchanged. For a list-shaped file the documents are
  given in full, with the file name, the key and the index as metadata.
\<close>

theorem loaded_text_is_nonblank:
  "map page_content (fst (load_json_files loads listing))
     = concat (map (loaded_texts loads) listing)
   \<and> (\<forall>d\<in>set (fst (load_json_files loads listing)).
         page_content d \<noteq> [] \<and> strip (page_content d) = page_content d)
   \<and> (endswith file_name ''.json'' \<and> loads content = Inr (JArray records) \<longrightarrow>
        fst (load_json_files loads [(file_name, Some content)])
          = concat (map (\<lambda>(i, r).
                           case r of
                             JObject d \<Rightarrow>
                               [\<lparr>page_content = strip s,
                                 metadata = [(''source'', JString file_name),
                                             (''key'', JString key),
                                             (''index'', JInt (int i))]\<rparr>.
                                (key, JString s) \<leftarrow> d, strip s \<noteq> []]
                           | JString s \<Rightarrow>
                               if strip s \<noteq> [] then
                                 [\<lparr>page_content = strip s,
                                   metadata = [(''source'', JString file_name),
                                               (''index'', JInt (int i))]\<rparr>]
                               else []
                           | _ \<Rightarrow> [])
                        (List.enumerate 0 records)))"
proof (intro conjI impI)
  show contents: "map page_content (fst (load_json_files loads listing))
          = concat (map (loaded_texts loads) listing)"
    by (simp add: load_json_files_def fold_load_file_contents)
  show "\<forall>d\<in>set (fst (load_json_files loads listing)).
         page_content d \<noteq> [] \<and> strip (page_content d) = page_content d"
  proof
    fix d assume "d \<in> set (fst (load_json_files loads listing))"
    then have "page_content d \<in> set (concat (map (loaded_texts loads) listing))"
      by (subst contents [symmetric]) simp
    then obtain entry where "page_content d \<in> set (loaded_texts loads entry)"
      by auto
    then show "page_content d \<noteq> [] \<and> strip (page_content d) = page_content d"
      by (rule loaded_texts_nonblank)
  qed
next
  assume "endswith file_name ''.json'' \<and> loads content = Inr (JArray records)"
  then show "fst (load_json_files loads [(file_name, Some content)])
          = concat (map (\<lambda>(i, r).
                           case r of
                             JObject d \<Rightarrow>
                               [\<lparr>page_content = strip s,
                                 metadata = [(''source'', JString file_name),
                                             (''key'', JString key),
                                             (''index'', JInt (int i))]\<rparr>.
                                (key, JString s) \<leftarrow> d, strip s \<noteq> []]
                           | JString s \<Rightarrow>
                               if strip s \<noteq> [] then
                                 [\<lparr>page_content = strip s,
                                   metadata = [(''source'', JString file_name),
                                               (''index'', JInt (int i))]\<rparr>]
                               else []
                           | _ \<Rightarrow> [])
                        (List.enumerate 0 records))"
    by (simp add: load_json_files_def load_file_def add_records_eq)
qed

text \<open>
  The example folder: a dict, a malformed file, and a list with a text item, a dict
  and a number.
\<close>

theorem loaded_text_is_nonblank_witness:
  "concat (map (loaded_texts decode_or_raise) example_folder) = [''x'', ''u'', ''v'']
   \<and> map page_content (fst (load_json_files decode_or_raise example_folder))
       = [''x'', ''u'', ''v'']
   \<and> list_all (\<lambda>d. page_content d \<noteq> [] \<and> strip (page_content d) = page_content d)
        (fst (load_json_files decode_or_raise example_folder))
   \<and> endswith ''c.json'' ''.json''
   \<and> decode_or_raise ''[\" u \", {\"k\": \"v\", \"n\": 1}, 3]''
       = Inr (JArray [JString '' u '', JObject [(''k'', JString ''v''), (''n'', JInt 1)], JInt 3])
   \<and> fst (load_json_files decode_or_raise
             [(''c.json'', Some ''[\" u \", {\"k\": \"v\", \"n\": 1}, 3]'')])
       = [\<lparr>page_content = ''u'',
            metadata = [(''source'', JString ''c.json''), (''index'', JInt 0)]\<rparr>,
          \<lparr>page_content = ''v'',
            metadata = [(''source'', JString ''c.json''), (''key'', JString ''k''),
                        (''index'', JInt 1)]\<rparr>]"
proof -
  have e: "endswith ''c.json'' ''.json''" by (simp add: endswith_def)
  have d: "decode_or_raise ''[\" u \", {\"k\": \"v\", \"n\": 1}, 3]''
       = Inr (JArray [JString '' u '', JObject [(''k'', JString ''v''), (''n'', JInt 1)], JInt 3])"
    by (simp add: decode_or_raise_def decode_list_file)
  note inst = loaded_text_is_nonblank
         [where loads = decode_or_raise and listing = example_folder
            and file_name = "''c.json''"
            and content = "''[\" u \", {\"k\": \"v\", \"n\": 1}, 3]''"
            and records = "[JString '' u '', JObject [(''k'', JString ''v''), (''n'', JInt 1)],
                            JInt 3]"]
  have c: "map page_content (fst (load_json_files decode_or_raise example_folder))
       = [''x'', ''u'', ''v'']"
    by (simp add: example_folder_loaded)
  from inst c have t: "concat (map (loaded_texts decode_or_raise) example_folder)
       = [''x'', ''u'', ''v'']"
    by simp
  from inst have a: "list_all (\<lambda>d. page_content d \<noteq> [] \<and> strip (page_content d) = page_content d)
        (fst (load_json_files decode_or_raise example_folder))"
    by (simp add: list_all_iff)
  from inst e d
  have l: "fst (load_json_files decode_or_raise
             [(''c.json'', Some ''[\" u \", {\"k\": \"v\", \"n\": 1}, 3]'')])
       = [\<lparr>page_content = ''u'',
            metadata = [(''source'', JString ''c.json''), (''index'', JInt 0)]\<rparr>,
          \<lparr>page_content = ''v'',
            metadata = [(''source'', JString ''c.json''), (''key'', JString ''k''),
                        (''index'', JInt 1)]\<rparr>]"
    by (simp add: enumerate_eq_zip upt_rec strip_examples)
  from t c a e d l show ?thesis by simp
qed

section \<open>The response of test3.py\<close>

text \<open>
  Claim C10. In test3.py, for a query that is not blank and a retrieval that succeeds,
  the \<open>validated_output\<close> entry of the response is the structured output grouped from
  the matches, whatever the language model, the decoder and the repair do; the status is
  200.
\<close>

theorem validated_output_is_structured_output:
  assumes "strip m \<noteq> []"
    and "retrieve sv (strip m) = Inr matches"
  shows "\<exists>body. fst (chat_test3 sv (Some m) w) = (200, JObject body)
           \<and> map_of body ''validated_output'' = Some (group_matches (json_loads sv) matches)"
  using chat_test3_response [OF assms, of w] by simp

text \<open>
  A model output whose \<open>validated_output\<close> is the empty object: step 4 computes it,
  and the response still carries the structured output.
\<close>

theorem validated_output_is_structured_output_witness:
  "parse_llm_output example_services ''{\"summary\": \"s\", \"validated_output\": {}}''
      (JObject [(''company_type.json'',
                 JArray [JObject [(''text'', JString ''Private Limited Company'')]])])
     = Inr (JString ''s'', JObject [], JObject [])
   \<and> (\<exists>body. fst (chat_test3 example_services
                     (Some ''{\"summary\": \"s\", \"validated_output\": {}}'') example_world)
                = (200, JObject body)
          \<and> map_of body ''validated_output''
              = Some (JObject [(''company_type.json'',
                                JArray [JObject [(''text'', JString ''Private Limited Company'')]])]))"
proof -
  have q: "strip ''{\"summary\": \"s\", \"validated_output\": {}}''
             = ''{\"summary\": \"s\", \"validated_output\": {}}''"
    by (simp add: strip_def isspace_def)
  have p: "parse_llm_output example_services ''{\"summary\": \"s\", \"validated_output\": {}}''
      (JObject [(''company_type.json'',
                 JArray [JObject [(''text'', JString ''Private Limited Company'')]])])
     = Inr (JString ''s'', JObject [], JObject [])"
    using clean_summary_text
    by (simp add: parse_llm_output_def example_services_def validate_and_repair_json_def
                  decode_or_raise_def decode_summary_text dict_get_def del: replace.simps)
  have r: "retrieve example_services (strip ''{\"summary\": \"s\", \"validated_output\": {}}'')
             = Inr [\<lparr>match_metadata = Some [(''source'', ''company_type.json''),
                                             (''text'', ''Private Limited Company'')]\<rparr>]"
    by (simp add: example_services_def)
  have g: "group_matches (json_loads example_services)
             [\<lparr>match_metadata = Some [(''source'', ''company_type.json''),
                                      (''text'', ''Private Limited Company'')]\<rparr>]
           = JObject [(''company_type.json'',
                       JArray [JObject [(''text'', JString ''Private Limited Company'')]])]"
    using example_matches_grouped by (simp add: example_services_def)
  from validated_output_is_structured_output [OF _ r, of example_world] q g
  have "\<exists>body. fst (chat_test3 example_services
                     (Some ''{\"summary\": \"s\", \"validated_output\": {}}'') example_world)
                = (200, JObject body)
          \<and> map_of body ''validated_output''
              = Some (JObject [(''company_type.json'',
                                JArray [JObject [(''text'', JString ''Private Limited Company'')]])])"
    by simp
  with p show ?thesis by simp
qed


end
